theory Spec2Isabelle
  imports Main "HOL-Library.Sublist"
begin

section \<open>Constants of ApkTranslator.py\<close>

definition BATCH_SIZE :: nat where
  "BATCH_SIZE = 100"

text \<open>The separator is a line feed, three dashes and a line feed.\<close>

definition XML_SEPARATOR :: string where
  "XML_SEPARATOR = ''\<newline>---\<newline>''"

definition API_MAX_RETRIES :: nat where
  "API_MAX_RETRIES = 3"

definition API_RATE_LIMIT_WAIT_SEC :: nat where
  "API_RATE_LIMIT_WAIT_SEC = 60"

section \<open>The string operations of Python that the program calls\<close>

text \<open>
  Strings are character lists. \<open>py_in sub s\<close> is Python's \<open>sub in s\<close> (a contiguous
  occurrence), \<open>join\<close> is \<open>sep.join(parts)\<close>, \<open>split\<close> is \<open>s.split(sep)\<close>: it cuts at
  the leftmost occurrences of the separator, which never overlap, and always returns at
  least one piece. Python raises ValueError on an empty separator; the program only ever
  splits on \<open>XML_SEPARATOR\<close>, and the model never finds an empty separator.
\<close>

fun py_in :: "string \<Rightarrow> string \<Rightarrow> bool" where
  "py_in sub [] = (sub = [])"
| "py_in sub (c # cs) = (prefix sub (c # cs) \<or> py_in sub cs)"

fun join :: "string \<Rightarrow> string list \<Rightarrow> string" where
  "join sep [] = []"
| "join sep [p] = p"
| "join sep (p # q # ps) = p @ sep @ join sep (q # ps)"

function split :: "string \<Rightarrow> string \<Rightarrow> string list" where
  "split sep [] = [[]]"
| "split sep (c # cs) =
     (if sep \<noteq> [] \<and> prefix sep (c # cs)
      then [] # split sep (drop (length sep) (c # cs))
      else (case split sep cs of
              [] \<Rightarrow> [[c]]
            | w # ws \<Rightarrow> (c # w) # ws))"
  by pat_completeness auto
termination
  by (relation "measure (\<lambda>(sep, s). length s)") auto

text \<open>
  Whitespace as \<open>str.isspace\<close> and \<open>str.strip\<close> see it. A character of the model
  is a code point below 256, and the whitespace among these is: tab, line feed, vertical
  tab, form feed, carriage return, the four separators 0x1C to 0x1F, the space, the
  next-line control 0x85 and the no-break space 0xA0. The wider spaces of Unicode lie
  outside the characters of the model.
\<close>

definition isspace_char :: "char \<Rightarrow> bool" where
  "isspace_char c = (c \<in> {CHR 0x09, CHR 0x0A, CHR 0x0B, CHR 0x0C, CHR 0x0D,
                           CHR 0x1C, CHR 0x1D, CHR 0x1E, CHR 0x1F, CHR 0x20,
                           CHR 0x85, CHR 0xA0})"

definition isspace :: "string \<Rightarrow> bool" where
  "isspace s = (s \<noteq> [] \<and> list_all isspace_char s)"

definition strip :: "string \<Rightarrow> string" where
  "strip s = rev (dropWhile isspace_char (rev (dropWhile isspace_char s)))"

text \<open>\<open>str.lower\<close> on the ASCII letters.\<close>

definition lower_char :: "char \<Rightarrow> char" where
  "lower_char c =
     (if (65::nat) \<le> of_char c \<and> of_char c \<le> (90::nat)
      then char_of (of_char c + (32::nat)) else c)"

definition lower :: "string \<Rightarrow> string" where
  "lower s = map lower_char s"

section \<open>The translation client: \<open>translate_text_with_ai\<close>\<close>

text \<open>
  One call of \<open>model.generate_content(prompt)\<close> followed by \<open>response.text\<close> either
  yields the text, or raises a network error (\<open>ReadTimeout\<close>, \<open>ConnectionError\<close>), or
  raises any other exception; the errors carry \<open>str(e)\<close>. The remote service is a
  parameter \<open>generate_content\<close> of the model: it answers the \<open>n\<close>-th call made so far
  for a given batch text (the prompt is a fixed instruction followed by that text).
  The state of the client counts the calls made and the seconds slept.
\<close>

datatype api_result = Response string | NetworkError string | OtherError string

record api_state =
  calls :: nat
  slept_sec :: nat

type_synonym remote = "nat \<Rightarrow> string \<Rightarrow> api_result"

definition made_call :: "api_state \<Rightarrow> api_state" where
  "made_call s = s\<lparr>calls := Suc (calls s)\<rparr>"

definition sleep :: "nat \<Rightarrow> api_state \<Rightarrow> api_state" where
  "sleep n s = s\<lparr>slept_sec := slept_sec s + n\<rparr>"

text \<open>
  The loop \<open>for attempt in range(API_MAX_RETRIES)\<close>, as a recursion over the attempt
  numbers that are left; \<open>continue\<close> is the recursive call, and the line after the loop
  is the case of the empty list.
\<close>

fun attempts :: "remote \<Rightarrow> string \<Rightarrow> nat list \<Rightarrow> api_state \<Rightarrow> string \<times> api_state" where
  "attempts generate_content xml_snippets_text [] s = (''ERROR_MAX_RETRIES_REACHED'', s)"
| "attempts generate_content xml_snippets_text (attempt # rest) s =
     (case generate_content (calls s) xml_snippets_text of
        Response txt \<Rightarrow> (strip txt, made_call s)
      | NetworkError e \<Rightarrow>
          (if attempt < API_MAX_RETRIES - 1
           then attempts generate_content xml_snippets_text rest
                  (sleep API_RATE_LIMIT_WAIT_SEC (made_call s))
           else (''ERROR_TIMEOUT: '' @ e, made_call s))
      | OtherError e \<Rightarrow>
          (if py_in ''resource_exhausted'' (lower e) \<or> py_in ''rate limit'' (lower e)
           then (if attempt < API_MAX_RETRIES - 1
                 then attempts generate_content xml_snippets_text rest
                        (sleep API_RATE_LIMIT_WAIT_SEC (made_call s))
                 else (''ERROR_RATE_LIMIT'', made_call s))
           else (''ERROR_UNEXPECTED: '' @ e, made_call s)))"

definition translate_text_with_ai :: "remote \<Rightarrow> string \<Rightarrow> api_state \<Rightarrow> string \<times> api_state" where
  "translate_text_with_ai generate_content xml_snippets_text s =
     (if xml_snippets_text = [] \<or> isspace xml_snippets_text then ([], s)
      else attempts generate_content xml_snippets_text [0..<API_MAX_RETRIES] s)"

section \<open>String records: the elements of \<open>xml.etree.ElementTree\<close>\<close>

text \<open>
  An element has a tag, attributes in document order, a text (\<open>None\<close> in Python when
  there is none), children and a tail. The program reads and writes \<open>.text\<close> only.
\<close>

datatype element =
  Element (el_tag: string) (el_attrib: "(string \<times> string) list") (el_text: "string option")
    (el_children: "element list") (el_tail: "string option")

definition set_text :: "string option \<Rightarrow> element \<Rightarrow> element" where
  "set_text v e = Element (el_tag e) (el_attrib e) v (el_children e) (el_tail e)"

text \<open>
  \<open>ET.tostring(tag, encoding='unicode')\<close> and \<open>ET.fromstring\<close> belong to the standard
  library; the program is modelled for every serializer and every parser. A parser
  returns \<open>None\<close> where \<open>ET.fromstring\<close> raises \<open>ParseError\<close>.
\<close>

type_synonym serializer = "element \<Rightarrow> string"
type_synonym parser = "string \<Rightarrow> element option"

text \<open>
  The tags the program holds are objects inside the tree, changed in place. A reference
  to a tag is its position among the children of the root, and the children list is the
  store that the translation rewrites.

  \<open>_get_translatable_strings\<close>: the \<open>string\<close> children of the root, in document order,
  whose text is truthy (neither \<open>None\<close> nor empty) and does not hold a percent sign
  together with a letter s or d.
\<close>

definition translatable :: "element \<Rightarrow> bool" where
  "translatable t =
     (case el_text t of
        None \<Rightarrow> False
      | Some s \<Rightarrow> s \<noteq> [] \<and> \<not> (py_in ''%'' s \<and> (py_in ''s'' s \<or> py_in ''d'' s)))"

definition get_translatable_strings :: "element list \<Rightarrow> nat list" where
  "get_translatable_strings children =
     filter (\<lambda>i. el_tag (children ! i) = ''string'' \<and> translatable (children ! i))
       [0..<length children]"

text \<open>What an f-string prints for a text: the word None when there is none.\<close>

definition format_text :: "string option \<Rightarrow> string" where
  "format_text v = (case v of None \<Rightarrow> ''None'' | Some s \<Rightarrow> s)"

text \<open>
  \<open>_update_tags_from_response\<close>. \<open>apply_fragment\<close> is the body of its loop, the \<open>try\<close>
  with its \<open>except ET.ParseError\<close>, as the new value of the tag; \<open>apply_fragments\<close> is
  the loop over \<open>zip(original_tags, split_translations)\<close>. The function returns its
  boolean and the store.
\<close>

definition apply_fragment :: "parser \<Rightarrow> string \<Rightarrow> element \<Rightarrow> element" where
  "apply_fragment fromstring translated_xml original_tag =
     (case fromstring (strip translated_xml) of
        Some translated_tag \<Rightarrow> set_text (el_text translated_tag) original_tag
      | None \<Rightarrow>
          set_text (Some (''TRANSLATION_ERROR: '' @ format_text (el_text original_tag)))
            original_tag)"

fun apply_fragments :: "parser \<Rightarrow> (nat \<times> string) list \<Rightarrow> element list \<Rightarrow> element list" where
  "apply_fragments fromstring [] store = store"
| "apply_fragments fromstring ((original_tag, translated_xml) # rest) store =
     apply_fragments fromstring rest
       (store[original_tag := apply_fragment fromstring translated_xml (store ! original_tag)])"

definition update_tags_from_response ::
  "parser \<Rightarrow> nat list \<Rightarrow> string \<Rightarrow> element list \<Rightarrow> bool \<times> element list" where
  "update_tags_from_response fromstring original_tags translated_xml_response store =
     (let split_translations = split XML_SEPARATOR translated_xml_response in
      if length split_translations \<noteq> length original_tags then (False, store)
      else (True, apply_fragments fromstring (zip original_tags split_translations) store))"

section \<open>The batch loop of \<open>_worker_translate\<close>\<close>

text \<open>\<open>range(start, stop, step)\<close> for a positive step.\<close>

function py_range :: "nat \<Rightarrow> nat \<Rightarrow> nat \<Rightarrow> nat list" where
  "py_range i stop step =
     (if 0 < step \<and> i < stop then i # py_range (i + step) stop step else [])"
  by pat_completeness auto
termination
  by (relation "measure (\<lambda>(i, stop, step). stop - i)") auto

declare py_range.simps [simp del]

text \<open>
  The state of a run: the store, the client's state, \<open>translated_count\<close> and the value
  shown by the progress bar. A run ends normally or at one of the two \<open>return\<close>
  statements inside the loop.
\<close>

record run_state =
  store :: "element list"
  net :: api_state
  translated_count :: nat
  progress_value :: nat

datatype abort = ApiFailure string | CardinalityMismatch

definition batch_tags_at :: "nat list \<Rightarrow> nat \<Rightarrow> nat list" where
  "batch_tags_at strings_to_translate i = take BATCH_SIZE (drop i strings_to_translate)"

definition combined_text_at :: "string list \<Rightarrow> nat \<Rightarrow> string" where
  "combined_text_at all_xml_snippets i =
     join XML_SEPARATOR (take BATCH_SIZE (drop i all_xml_snippets))"

text \<open>
  The loop \<open>for i in range(0, total_strings, BATCH_SIZE)\<close>, as a recursion over the
  start positions that are left.
\<close>

fun run_batches ::
  "parser \<Rightarrow> remote \<Rightarrow> nat list \<Rightarrow> string list \<Rightarrow> nat list \<Rightarrow> run_state
     \<Rightarrow> abort option \<times> run_state" where
  "run_batches fromstring generate_content strings_to_translate all_xml_snippets [] st =
     (None, st)"
| "run_batches fromstring generate_content strings_to_translate all_xml_snippets (i # rest) st =
     (let batch_tags = batch_tags_at strings_to_translate i;
          combined_text = combined_text_at all_xml_snippets i;
          (combined_translation, net') =
             translate_text_with_ai generate_content combined_text (net st)
      in if py_in ''ERROR_'' combined_translation
         then (Some (ApiFailure combined_translation), st\<lparr>net := net'\<rparr>)
         else (case update_tags_from_response fromstring batch_tags combined_translation (store st) of
                 (False, store') \<Rightarrow> (Some CardinalityMismatch, st\<lparr>net := net'\<rparr>)
               | (True, store') \<Rightarrow>
                   run_batches fromstring generate_content strings_to_translate all_xml_snippets rest
                     (st\<lparr>store := store', net := net',
                         translated_count := translated_count st + length batch_tags,
                         progress_value := translated_count st + length batch_tags\<rparr>)))"

definition all_xml_snippets_of :: "serializer \<Rightarrow> element list \<Rightarrow> nat list \<Rightarrow> string list" where
  "all_xml_snippets_of tostring children strings_to_translate =
     map (\<lambda>tag. strip (tostring (children ! tag))) strings_to_translate"

section \<open>The workflow state and its gate\<close>

datatype AppState =
  INITIAL | APK_SELECTED | DECOMPILED | STRINGS_EXTRACTED | TRANSLATION_COMPLETE | SAVED | RECOMPILED

datatype button =
  step1_btn | step2_btn | step2b_btn | step3_btn | step4a_btn | step5_btn | step6_btn | step7_btn

datatype tk_state = NORMAL | DISABLED

text \<open>
  The fields of \<open>APKTranslatorApp\<close> that the stages read and write. \<open>widgets\<close> is the
  \<open>state\<close> option of every stage button; \<open>written\<close> lists the files the save stage has
  written, each with its content; \<open>client\<close> is the state of the translation client.
  The log, the message boxes, the editor pane and the progress label are presentation
  and are left out.
\<close>

record app =
  current_state :: "AppState option"
  expert_mode :: bool
  widgets :: "button \<Rightarrow> tk_state"
  dependencies_ok :: bool
  apk_path :: "string option"
  decompiled_dir :: "string option"
  original_strings_xml_path :: "string option"
  unsigned_apk_path :: "string option"
  xml_root :: "element option"
  overwrite_original :: bool
  progress_maximum :: nat
  progress_bar_value :: nat
  client :: api_state
  written :: "(string \<times> string) list"

definition buttons :: "button list" where
  "buttons = [step2_btn, step2b_btn, step3_btn, step4a_btn, step5_btn, step6_btn, step7_btn]"

fun state_map :: "AppState \<Rightarrow> button list" where
  "state_map INITIAL = []"
| "state_map APK_SELECTED = [step2_btn, step2b_btn]"
| "state_map DECOMPILED = [step3_btn]"
| "state_map STRINGS_EXTRACTED = [step4a_btn]"
| "state_map TRANSLATION_COMPLETE = [step5_btn]"
| "state_map SAVED = [step6_btn]"
| "state_map RECOMPILED = [step7_btn]"

text \<open>\<open>for btn in btns: btn.config(state=v)\<close>.\<close>

definition config :: "tk_state \<Rightarrow> button list \<Rightarrow> (button \<Rightarrow> tk_state) \<Rightarrow> (button \<Rightarrow> tk_state)" where
  "config v btns w = fold (\<lambda>btn w'. w'(btn := v)) btns w"

text \<open>
  \<open>_update_ui_for_state\<close>. Before the first \<open>set_state\<close> the current state is \<open>None\<close>,
  which is no key of the state map.
\<close>

definition update_ui_for_state :: "app \<Rightarrow> app" where
  "update_ui_for_state a =
     (let w = config DISABLED buttons (widgets a) in
      if expert_mode a then a\<lparr>widgets := config NORMAL buttons w\<rparr>
      else (case current_state a of
              None \<Rightarrow> a\<lparr>widgets := w\<rparr>
            | Some s \<Rightarrow> a\<lparr>widgets := config NORMAL (state_map s) w\<rparr>))"

definition set_state :: "AppState \<Rightarrow> app \<Rightarrow> app" where
  "set_state new_state a = update_ui_for_state (a\<lparr>current_state := Some new_state\<rparr>)"

text \<open>Ticking the expert checkbox flips its variable and then runs \<open>toggle_expert_mode\<close>.\<close>

definition toggle_expert_mode :: "app \<Rightarrow> app" where
  "toggle_expert_mode a = update_ui_for_state (a\<lparr>expert_mode := \<not> expert_mode a\<rparr>)"

text \<open>
  The application after \<open>_init_state_vars\<close> and \<open>_setup_gui\<close> (every button is created
  in Tk's default state, normal), and after \<open>_post_init_tasks\<close>.
\<close>

definition created_app :: app where
  "created_app =
     \<lparr>current_state = None, expert_mode = False, widgets = (\<lambda>btn. NORMAL),
      dependencies_ok = False, apk_path = None, decompiled_dir = None,
      original_strings_xml_path = None, unsigned_apk_path = None, xml_root = None,
      overwrite_original = False, progress_maximum = 0, progress_bar_value = 0,
      client = \<lparr>calls = 0, slept_sec = 0\<rparr>, written = []\<rparr>"

definition initial_app :: app where
  "initial_app = set_state INITIAL created_app"

section \<open>The stages\<close>

text \<open>
  Each worker runs to its end, and the callbacks it hands to \<open>root.after\<close> run in the
  order in which it queued them. What the operating system or a tool answers is an
  argument of the stage: the paths that \<open>os.path\<close> computes, whether a file exists, how
  a process ended. \<open>falsy\<close> is Python's \<open>not path\<close> for a path that may be \<open>None\<close>.
\<close>

definition falsy :: "string option \<Rightarrow> bool" where
  "falsy v = (v = None \<or> v = Some [])"

datatype proc_result = Exited int | LaunchFailed

text \<open>\<open>run_command\<close>: true exactly for exit code 0; false when \<open>Popen\<close> raises.\<close>

definition run_command :: "proc_result \<Rightarrow> bool" where
  "run_command r = (case r of Exited returncode \<Rightarrow> returncode = 0 | LaunchFailed \<Rightarrow> False)"

text \<open>
  Stage 1. An empty \<open>source_apk_path\<close> is a cancelled dialog. Inside the \<open>try\<close> the work
  directory is prepared, then \<open>apk_path\<close> is assigned, then the file is copied.
\<close>

datatype select_outcome = WorkDirFailed | CopyFailed | Copied

definition run_step1_select_apk :: "string \<Rightarrow> string \<Rightarrow> select_outcome \<Rightarrow> app \<Rightarrow> app" where
  "run_step1_select_apk source_apk_path target outcome a =
     (if source_apk_path = [] then a
      else (case outcome of
              WorkDirFailed \<Rightarrow> a
            | CopyFailed \<Rightarrow> a\<lparr>apk_path := Some target\<rparr>
            | Copied \<Rightarrow> set_state APK_SELECTED (a\<lparr>apk_path := Some target\<rparr>)))"

text \<open>Stage 2.\<close>

definition worker_decompile :: "string \<Rightarrow> proc_result \<Rightarrow> app \<Rightarrow> app" where
  "worker_decompile dir r a =
     (let a1 = a\<lparr>decompiled_dir := Some dir\<rparr> in
      if run_command r then set_state DECOMPILED a1 else a1)"

definition run_step2_decompile :: "string \<Rightarrow> proc_result \<Rightarrow> app \<Rightarrow> app" where
  "run_step2_decompile dir r a =
     (if \<not> dependencies_ok a then a
      else if falsy (apk_path a) then a
      else worker_decompile dir r a)"

text \<open>
  Stage 3. \<open>parsed\<close> is the root that \<open>ET.parse\<close> returns, \<open>None\<close> when it raises.
\<close>

definition worker_extract_strings :: "string \<Rightarrow> bool \<Rightarrow> element option \<Rightarrow> app \<Rightarrow> app" where
  "worker_extract_strings path path_exists parsed a =
     (let a1 = a\<lparr>original_strings_xml_path := Some path\<rparr> in
      if \<not> path_exists then a1
      else (case parsed of
              None \<Rightarrow> a1
            | Some root \<Rightarrow> set_state STRINGS_EXTRACTED (a1\<lparr>xml_root := Some root\<rparr>)))"

definition run_step3_extract_strings ::
  "bool \<Rightarrow> string \<Rightarrow> bool \<Rightarrow> element option \<Rightarrow> app \<Rightarrow> app" where
  "run_step3_extract_strings isdir path path_exists parsed a =
     (if falsy (decompiled_dir a) \<or> \<not> isdir then a
      else worker_extract_strings path path_exists parsed a)"

text \<open>
  Stage 4. \<open>translation_run\<close> is the part of \<open>_worker_translate\<close> from the snippets to
  the end of the loop, on the children of the root; \<open>shown\<close> is the value the progress
  bar has when the run starts, which the program changes only after a batch. The TLS
  settings that the worker applies first do not enter the model; \<open>credentials_ok\<close> says
  that an API key is entered and a model is chosen.
\<close>

definition set_children :: "element list \<Rightarrow> element \<Rightarrow> element" where
  "set_children cs e = Element (el_tag e) (el_attrib e) (el_text e) cs (el_tail e)"

definition translation_run ::
  "serializer \<Rightarrow> parser \<Rightarrow> remote \<Rightarrow> element list \<Rightarrow> api_state \<Rightarrow> nat
     \<Rightarrow> abort option \<times> run_state" where
  "translation_run tostring fromstring generate_content children s shown =
     (let strings_to_translate = get_translatable_strings children;
          total_strings = length strings_to_translate;
          all_xml_snippets = all_xml_snippets_of tostring children strings_to_translate
      in run_batches fromstring generate_content strings_to_translate all_xml_snippets
           (py_range 0 total_strings BATCH_SIZE)
           \<lparr>store = children, net = s, translated_count = 0, progress_value = shown\<rparr>)"

definition worker_translate :: "serializer \<Rightarrow> parser \<Rightarrow> remote \<Rightarrow> app \<Rightarrow> app" where
  "worker_translate tostring fromstring generate_content a =
     (case xml_root a of
        None \<Rightarrow> a
      | Some root \<Rightarrow>
          (let strings_to_translate = get_translatable_strings (el_children root) in
           if strings_to_translate = [] then a\<lparr>widgets := (widgets a)(step4a_btn := NORMAL)\<rparr>
           else (case translation_run tostring fromstring generate_content (el_children root)
                        (client a) (progress_bar_value a) of
                   (outcome, st) \<Rightarrow>
                     (let a1 = a\<lparr>xml_root := Some (set_children (store st) root),
                                 client := net st,
                                 progress_maximum := length strings_to_translate,
                                 progress_bar_value := progress_value st\<rparr>
                      in case outcome of
                           Some failure \<Rightarrow> update_ui_for_state a1
                         | None \<Rightarrow> set_state TRANSLATION_COMPLETE a1))))"

definition run_step4_translate ::
  "bool \<Rightarrow> serializer \<Rightarrow> parser \<Rightarrow> remote \<Rightarrow> app \<Rightarrow> app" where
  "run_step4_translate credentials_ok tostring fromstring generate_content a =
     (if xml_root a = None then a
      else if \<not> credentials_ok then a
      else worker_translate tostring fromstring generate_content
             (a\<lparr>widgets := (widgets a)(step4a_btn := DISABLED)\<rparr>))"

text \<open>
  Stage 5. \<open>write_ok\<close> is false when creating the directory or writing the file raises.
\<close>

definition worker_save_translated :: "string \<Rightarrow> string \<Rightarrow> bool \<Rightarrow> app \<Rightarrow> app" where
  "worker_save_translated hebrew_path edited_content write_ok a =
     (if overwrite_original a \<and> falsy (original_strings_xml_path a) then a
      else (let save_path = (if overwrite_original a then the (original_strings_xml_path a)
                             else hebrew_path)
            in if write_ok
               then set_state SAVED (a\<lparr>written := written a @ [(save_path, edited_content)]\<rparr>)
               else a))"

definition run_step5_save_translated :: "string \<Rightarrow> string \<Rightarrow> bool \<Rightarrow> app \<Rightarrow> app" where
  "run_step5_save_translated hebrew_path edited_content write_ok a =
     (if falsy (decompiled_dir a) then a
      else worker_save_translated hebrew_path edited_content write_ok a)"

text \<open>Stages 6 and 7.\<close>

definition worker_recompile :: "string \<Rightarrow> proc_result \<Rightarrow> app \<Rightarrow> app" where
  "worker_recompile unsigned_path r a =
     (let a1 = a\<lparr>unsigned_apk_path := Some unsigned_path\<rparr> in
      if run_command r then set_state RECOMPILED a1 else a1)"

definition run_step6_recompile :: "string \<Rightarrow> proc_result \<Rightarrow> app \<Rightarrow> app" where
  "run_step6_recompile unsigned_path r a =
     (if \<not> dependencies_ok a then a
      else if falsy (decompiled_dir a) then a
      else worker_recompile unsigned_path r a)"

definition worker_sign :: "bool \<Rightarrow> proc_result \<Rightarrow> app \<Rightarrow> app" where
  "worker_sign keystore_exists r a =
     (if \<not> keystore_exists then a
      else if run_command r then set_state INITIAL a else a)"

definition run_step7_sign :: "bool \<Rightarrow> bool \<Rightarrow> proc_result \<Rightarrow> app \<Rightarrow> app" where
  "run_step7_sign unsigned_exists keystore_exists r a =
     (if \<not> dependencies_ok a then a
      else if falsy (unsigned_apk_path a) \<or> \<not> unsigned_exists then a
      else worker_sign keystore_exists r a)"

text \<open>
  A press of a stage button, with what the world answers during that stage. Tk runs the
  command of a button only while the button's state is normal; this is the only gate
  the program has.
\<close>

datatype press =
    SelectApk string string select_outcome
  | Decompile string proc_result
  | ChooseFolder string proc_result
  | ExtractStrings bool string bool "element option"
  | Translate bool serializer parser remote
  | SaveTranslated string string bool
  | Recompile string proc_result
  | Sign bool bool proc_result

fun button_of :: "press \<Rightarrow> button" where
  "button_of (SelectApk source_apk_path target outcome) = step1_btn"
| "button_of (Decompile dir r) = step2_btn"
| "button_of (ChooseFolder dir r) = step2b_btn"
| "button_of (ExtractStrings isdir path path_exists parsed) = step3_btn"
| "button_of (Translate credentials_ok tostring fromstring generate_content) = step4a_btn"
| "button_of (SaveTranslated hebrew_path edited_content write_ok) = step5_btn"
| "button_of (Recompile unsigned_path r) = step6_btn"
| "button_of (Sign unsigned_exists keystore_exists r) = step7_btn"

fun command :: "press \<Rightarrow> app \<Rightarrow> app" where
  "command (SelectApk source_apk_path target outcome) =
     run_step1_select_apk source_apk_path target outcome"
| "command (Decompile dir r) = run_step2_decompile dir r"
| "command (ChooseFolder dir r) = run_step2_decompile dir r"
| "command (ExtractStrings isdir path path_exists parsed) =
     run_step3_extract_strings isdir path path_exists parsed"
| "command (Translate credentials_ok tostring fromstring generate_content) =
     run_step4_translate credentials_ok tostring fromstring generate_content"
| "command (SaveTranslated hebrew_path edited_content write_ok) =
     run_step5_save_translated hebrew_path edited_content write_ok"
| "command (Recompile unsigned_path r) = run_step6_recompile unsigned_path r"
| "command (Sign unsigned_exists keystore_exists r) =
     run_step7_sign unsigned_exists keystore_exists r"

definition click :: "press \<Rightarrow> app \<Rightarrow> app" where
  "click p a = (if widgets a (button_of p) = NORMAL then command p a else a)"

section \<open>The serializer of the standard library\<close>

text \<open>
  \<open>ET.tostring(element, encoding='unicode')\<close> as \<open>_serialize_xml\<close> of
  \<open>xml.etree.ElementTree\<close> writes an element whose tag and attribute names carry no
  namespace: the start tag with the attributes in order, then the escaped text, the
  children and the end tag (or the short form when there is neither text nor child),
  then the escaped tail. Character data escapes the ampersand and the angle brackets;
  attribute values also escape the double quote, carriage return, line feed and tab.
  The theorems about the program hold for every serializer; this one gives the
  program's behaviour on concrete string tables.
\<close>

fun escape_cdata :: "string \<Rightarrow> string" where
  "escape_cdata [] = []"
| "escape_cdata (c # cs) =
     (if c = CHR ''&'' then ''&amp;''
      else if c = CHR ''<'' then ''&lt;''
      else if c = CHR ''>'' then ''&gt;''
      else [c]) @ escape_cdata cs"

fun escape_attrib :: "string \<Rightarrow> string" where
  "escape_attrib [] = []"
| "escape_attrib (c # cs) =
     (if c = CHR ''&'' then ''&amp;''
      else if c = CHR ''<'' then ''&lt;''
      else if c = CHR ''>'' then ''&gt;''
      else if c = CHR 0x22 then ''&quot;''
      else if c = CHR 0x0D then ''&#13;''
      else if c = CHR 0x0A then ''&#10;''
      else if c = CHR 0x09 then ''&#09;''
      else [c]) @ escape_attrib cs"

definition write_attrib :: "string \<times> string \<Rightarrow> string" where
  "write_attrib kv =
     '' '' @ fst kv @ [CHR ''='', CHR 0x22] @ escape_attrib (snd kv) @ [CHR 0x22]"

fun ET_tostring :: "element \<Rightarrow> string" where
  "ET_tostring (Element tag attrib txt children tail) =
     ''<'' @ tag @ concat (map write_attrib attrib) @
     (if (txt \<noteq> None \<and> txt \<noteq> Some []) \<or> children \<noteq> []
      then ''>'' @ (case txt of None \<Rightarrow> [] | Some t \<Rightarrow> escape_cdata t) @
           concat (map ET_tostring children) @ ''</'' @ tag @ ''>''
      else '' />'') @
     (case tail of None \<Rightarrow> [] | Some t \<Rightarrow> escape_cdata t)"

section \<open>Sample remotes and string tables\<close>

text \<open>
  Concrete inputs on which the program is run below: a client that has made no call,
  a remote that raises an unexpected error at the first call and echoes afterwards, a
  remote that echoes every batch text unchanged.
\<close>

definition fresh_client :: api_state where
  "fresh_client = \<lparr>calls = 0, slept_sec = 0\<rparr>"

definition fails_once :: remote where
  "fails_once n p = (if n = 0 then OtherError ''boom'' else Response p)"

definition echo :: remote where
  "echo n p = Response p"

text \<open>
  Two string tables: one with a format placeholder between two translatable strings,
  one whose only string has the separator inside its text.
\<close>

definition hello_table :: "element list" where
  "hello_table =
     [Element ''string'' [(''name'', ''hello'')] (Some ''Hello'') [] (Some ''\<newline>    ''),
      Element ''string'' [(''name'', ''fmt'')] (Some ''%1$s'') [] (Some ''\<newline>    ''),
      Element ''string'' [(''name'', ''bye'')] (Some ''Goodbye'') [] (Some ''\<newline>'')]"

definition separator_in_text :: "element list" where
  "separator_in_text =
     [Element ''string'' [(''name'', ''a'')] (Some ''x\<newline>---\<newline>y'') []
        (Some ''\<newline>'')]"

text \<open>
  An application that has selected a package, decompiled it and extracted the table
  \<open>hello_table\<close>, with every tool present and the override off.
\<close>

definition resources :: "element list \<Rightarrow> element" where
  "resources children = Element ''resources'' [] (Some ''\<newline>    '') children None"

definition extracted_app :: app where
  "extracted_app =
     click (ExtractStrings True ''work/app/res/values/strings.xml'' True
              (Some (resources hello_table)))
       (click (Decompile ''work/app'' (Exited 0))
          (click (SelectApk ''app.apk'' ''work/app.apk'' Copied)
             (initial_app\<lparr>dependencies_ok := True\<rparr>)))"

text \<open>
  A parser that knows the fragments used below and rejects every other text, as
  \<open>ET.fromstring\<close> rejects \<open><broken\<close>.
\<close>

definition sample_fromstring :: parser where
  "sample_fromstring s =
     (if s = ''<string name=\"hello\">Shalom</string>''
      then Some (Element ''string'' [(''name'', ''hello'')] (Some ''Shalom'') [] None)
      else if s = ''<string name=\"bye\">Lehitraot</string>''
      then Some (Element ''string'' [(''name'', ''bye'')] (Some ''Lehitraot'') [] None)
      else if s = ''<string name=\"hello\">ERROR_404</string>''
      then Some (Element ''string'' [(''name'', ''hello'')] (Some ''ERROR_404'') [] None)
      else if s = ''<string name=\"hi\">Shalom</string>''
      then Some (Element ''string'' [(''name'', ''hi'')] (Some ''Shalom'') [] None)
      else None)"

text \<open>
  A response to the batch of \<open>hello_table\<close> whose two fragments come back in the other
  order, each still under its own name.
\<close>

definition swapped_response :: string where
  "swapped_response =
     ''<string name=\"bye\">Lehitraot</string>'' @ XML_SEPARATOR
       @ ''<string name=\"hello\">Shalom</string>''"

text \<open>
  The four kinds of text that \<open>translate_text_with_ai\<close> returns for a failure, as its
  \<open>return\<close> statements build them.
\<close>

definition terminal_failure :: "string \<Rightarrow> bool" where
  "terminal_failure r =
     (prefix ''ERROR_TIMEOUT: '' r \<or> r = ''ERROR_RATE_LIMIT''
      \<or> prefix ''ERROR_UNEXPECTED: '' r \<or> r = ''ERROR_MAX_RETRIES_REACHED'')"

text \<open>The state in which \<open>_worker_translate\<close> enters its loop on \<open>hello_table\<close>.\<close>

definition hello_start :: run_state where
  "hello_start =
     \<lparr>store = hello_table, net = fresh_client, translated_count = 0, progress_value = 0\<rparr>"

text \<open>
  Responses to the batch of \<open>hello_table\<close>: both fragments translated; the second
  fragment cut short; the first translation holding the text \<open>ERROR_404\<close>. Each comes
  with the remote that gives it as its answer to every call.
\<close>

definition good_response :: string where
  "good_response =
     ''<string name=\"hello\">Shalom</string>'' @ XML_SEPARATOR
       @ ''<string name=\"bye\">Lehitraot</string>''"

definition one_bad_response :: string where
  "one_bad_response =
     ''<string name=\"hello\">Shalom</string>'' @ XML_SEPARATOR @ ''<broken''"

definition marked_response :: string where
  "marked_response =
     ''<string name=\"hello\">ERROR_404</string>'' @ XML_SEPARATOR
       @ ''<string name=\"bye\">Lehitraot</string>''"

definition answers :: "string \<Rightarrow> remote" where
  "answers response n p = Response response"

text \<open>
  A table with a string of two spaces and a string whose placeholder formats a
  floating-point number.
\<close>

definition blank_table :: "element list" where
  "blank_table =
     [Element ''string'' [(''name'', ''gap'')] (Some ''  '') [] None,
      Element ''string'' [(''name'', ''price'')] (Some ''%.2f'') [] None]"

text \<open>The state in which the loop ends on \<open>hello_table\<close> when \<open>good_response\<close> comes back.\<close>

definition hello_done :: run_state where
  "hello_done =
     \<lparr>store =
        [Element ''string'' [(''name'', ''hello'')] (Some ''Shalom'') [] (Some ''\<newline>    ''),
         Element ''string'' [(''name'', ''fmt'')] (Some ''%1$s'') [] (Some ''\<newline>    ''),
         Element ''string'' [(''name'', ''bye'')] (Some ''Lehitraot'') [] (Some ''\<newline>'')],
      net = \<lparr>calls = 1, slept_sec = 0\<rparr>, translated_count = 2, progress_value = 2\<rparr>"

text \<open>
  A response to the batch of \<open>hello_table\<close> whose first fragment is well formed and
  holds the text \<open>ERROR_404\<close>, and whose second fragment is cut short.
\<close>

definition marked_bad_response :: string where
  "marked_bad_response =
     ''<string name=\"hello\">ERROR_404</string>'' @ XML_SEPARATOR @ ''<broken''"

text \<open>
  A table of 101 equal strings, which makes two batches, with a remote that answers the
  first call with one hundred translated fragments and lets every later call time out.
\<close>

definition hi_tag :: element where
  "hi_tag = Element ''string'' [(''name'', ''hi'')] (Some ''Hi'') [] None"

definition long_table :: "element list" where
  "long_table = replicate 101 hi_tag"

definition hundred_fragments :: string where
  "hundred_fragments = join XML_SEPARATOR (replicate 100 ''<string name=\"hi\">Shalom</string>'')"

definition answers_once :: remote where
  "answers_once n p = (if n = 0 then Response hundred_fragments else NetworkError ''timed out'')"

definition long_start :: run_state where
  "long_start =
     \<lparr>store = long_table, net = fresh_client, translated_count = 0, progress_value = 0\<rparr>"

definition long_after_first :: run_state where
  "long_after_first =
     \<lparr>store = snd (update_tags_from_response sample_fromstring (batch_tags_at [0..<101] 0)
                     hundred_fragments long_table),
      net = \<lparr>calls = 1, slept_sec = 0\<rparr>, translated_count = 100, progress_value = 100\<rparr>"

text \<open>
  A table of 102 strings, one hundred equal ones followed by \<open>hello\<close> and \<open>bye\<close>, which
  makes a batch of one hundred and a batch of two, with a remote that answers the first
  call with one hundred translated fragments and every later call with the two
  translations in the other order.
\<close>

definition hello_tag :: element where
  "hello_tag = Element ''string'' [(''name'', ''hello'')] (Some ''Hello'') [] None"

definition bye_tag :: element where
  "bye_tag = Element ''string'' [(''name'', ''bye'')] (Some ''Goodbye'') [] None"

definition mixed_table :: "element list" where
  "mixed_table = replicate 100 hi_tag @ [hello_tag, bye_tag]"

definition answers_in_turn :: remote where
  "answers_in_turn n p = Response (if n = 0 then hundred_fragments else swapped_response)"

definition mixed_start :: run_state where
  "mixed_start =
     \<lparr>store = mixed_table, net = fresh_client, translated_count = 0, progress_value = 0\<rparr>"

definition mixed_after_first :: run_state where
  "mixed_after_first =
     \<lparr>store = snd (update_tags_from_response sample_fromstring (batch_tags_at [0..<102] 0)
                     hundred_fragments mixed_table),
      net = \<lparr>calls = 1, slept_sec = 0\<rparr>, translated_count = 100, progress_value = 100\<rparr>"

section \<open>Properties of the string operations\<close>

lemma split_nonempty: "split sep s \<noteq> []"
  by (induction sep s rule: split.induct) (auto split: list.splits)

lemma py_in_iff: "py_in sub s \<longleftrightarrow> (\<exists>a b. s = a @ sub @ b)"
proof (induction s)
  case Nil
  then show ?case by auto
next
  case (Cons c cs)
  show ?case
  proof
    assume "py_in sub (c # cs)"
    then consider "prefix sub (c # cs)" | "py_in sub cs" by auto
    then show "\<exists>a b. c # cs = a @ sub @ b"
    proof cases
      case 1
      then obtain b where "c # cs = sub @ b" by (auto simp: prefix_def)
      then have "c # cs = [] @ sub @ b" by simp
      then show ?thesis by blast
    next
      case 2
      then obtain a b where "cs = a @ sub @ b" using Cons.IH by blast
      then have "c # cs = (c # a) @ sub @ b" by simp
      then show ?thesis by blast
    qed
  next
    assume "\<exists>a b. c # cs = a @ sub @ b"
    then obtain a b where ab: "c # cs = a @ sub @ b" by blast
    show "py_in sub (c # cs)"
    proof (cases a)
      case Nil
      then have "prefix sub (c # cs)" using ab by (simp add: prefix_def)
      then show ?thesis by simp
    next
      case (Cons x a')
      then have "cs = a' @ sub @ b" using ab by simp
      then have "py_in sub cs" using Cons.IH by blast
      then show ?thesis by simp
    qed
  qed
qed

lemma py_in_appendI: "py_in sub s \<Longrightarrow> py_in sub (s @ t)"
proof -
  assume "py_in sub s"
  then obtain a b where "s = a @ sub @ b" by (auto simp: py_in_iff)
  then have "s @ t = a @ sub @ (b @ t)" by simp
  then show ?thesis unfolding py_in_iff by blast
qed

lemma py_in_prefix: "prefix sub s \<Longrightarrow> py_in sub s"
  by (cases s) auto

text \<open>A text without the separator is one piece.\<close>

lemma split_no_sep: "\<not> py_in sep f \<Longrightarrow> split sep f = [f]"
proof (induction f)
  case Nil
  then show ?case by simp
next
  case (Cons c f)
  then have np: "\<not> prefix sep (c # f)" and nf: "\<not> py_in sep f" by auto
  then show ?case using Cons.IH by simp
qed

text \<open>
  A fragment followed by the separator is cut off as the first piece, provided that no
  occurrence of the separator starts inside the fragment.
\<close>

lemma split_fragment_then_sep:
  assumes "sep \<noteq> []" and "\<not> py_in sep (f @ butlast sep)"
  shows "split sep (f @ sep @ r) = f # split sep r"
  using assms(2)
proof (induction f)
  case Nil
  then show ?case using assms(1) by (cases sep) auto
next
  case (Cons c f)
  have np: "\<not> prefix sep (c # f @ sep @ r)"
  proof
    assume pr: "prefix sep (c # f @ sep @ r)"
    have "c # f @ sep @ r = (c # f @ butlast sep) @ (last sep # r)"
      using assms(1) by simp
    moreover have "length sep \<le> length (c # f @ butlast sep)" by simp
    ultimately have "prefix sep (c # f @ butlast sep)"
      using pr by (metis prefix_length_prefix prefixI)
    then show False using Cons.prems by simp
  qed
  have "\<not> py_in sep (f @ butlast sep)" using Cons.prems by simp
  then have "split sep (f @ sep @ r) = f # split sep r" by (rule Cons.IH)
  then show ?case using np by simp
qed

lemma split_join:
  assumes "sep \<noteq> []" and "frags \<noteq> []"
    and "\<forall>f \<in> set frags. \<not> py_in sep (f @ butlast sep)"
  shows "split sep (join sep frags) = frags"
  using assms
proof (induction sep frags rule: join.induct)
  case (1 sep)
  then show ?case by simp
next
  case (2 sep p)
  then have "\<not> py_in sep (p @ butlast sep)" by simp
  then have "\<not> py_in sep p" using py_in_appendI by blast
  then show ?case by (simp add: split_no_sep)
next
  case (3 sep p q ps)
  have ih: "split sep (join sep (q # ps)) = q # ps" using 3 by simp
  have np: "\<not> py_in sep (p @ butlast sep)" using 3 by simp
  have ne: "sep \<noteq> []" using 3 by simp
  show ?case using split_fragment_then_sep[OF ne np, of "join sep (q # ps)"] ih by simp
qed

section \<open>Properties of the translation client\<close>

lemma upt_retries: "[0..<API_MAX_RETRIES] = [0, 1, 2]"
  by (simp add: API_MAX_RETRIES_def upt_rec)






section \<open>Stripping, joining and the echoed batch\<close>

lemma strip_id:
  assumes "s \<noteq> []" and "\<not> isspace_char (hd s)" and "\<not> isspace_char (last s)"
  shows "strip s = s"
proof -
  have "dropWhile isspace_char s = s" using assms(1,2) by (cases s) auto
  moreover have "dropWhile isspace_char (rev s) = rev s"
    using assms(1,3) by (cases "rev s") (auto simp: last_rev hd_rev[symmetric] simp del: hd_rev)
  ultimately show ?thesis by (simp add: strip_def)
qed

lemma last_dropWhile: "dropWhile P xs \<noteq> [] \<Longrightarrow> last (dropWhile P xs) = last xs"
  by (induction xs) (auto split: if_splits)

lemma strip_ends:
  assumes "strip s \<noteq> []"
  shows "\<not> isspace_char (hd (strip s)) \<and> \<not> isspace_char (last (strip s))"
proof -
  define d where "d = dropWhile isspace_char s"
  define e where "e = dropWhile isspace_char (rev d)"
  have st: "strip s = rev e" by (simp add: strip_def d_def e_def)
  have ene: "e \<noteq> []" using assms st by simp
  then have dne: "d \<noteq> []" by (auto simp: e_def)
  have "\<not> isspace_char (hd e)" using ene unfolding e_def by (rule hd_dropWhile)
  then have l: "\<not> isspace_char (last (strip s))" using ene st by (simp add: last_rev)
  have "last e = last (rev d)" using ene unfolding e_def by (rule last_dropWhile)
  also have "\<dots> = hd d" using dne by (simp add: last_rev)
  finally have "hd (strip s) = hd d" using ene st by (simp add: hd_rev)
  moreover have "\<not> isspace_char (hd d)" using dne unfolding d_def by (rule hd_dropWhile)
  ultimately show ?thesis using l by simp
qed

lemma strip_strip: "strip (strip s) = strip s"
proof (cases "strip s = []")
  case True
  have "strip [] = []" by (simp add: strip_def)
  then show ?thesis using True by simp
next
  case False
  then show ?thesis using strip_ends[OF False] by (simp add: strip_id)
qed

lemma hd_join: "f \<noteq> [] \<Longrightarrow> hd (join sep (f # fs)) = hd f"
  by (cases fs) auto

lemma join_nonempty: "f \<noteq> [] \<Longrightarrow> join sep (f # fs) \<noteq> []"
  by (cases fs) auto

lemma join_last_nonempty: "fs \<noteq> [] \<Longrightarrow> last fs \<noteq> [] \<Longrightarrow> join sep fs \<noteq> []"
  by (induction sep fs rule: join.induct) auto

lemma last_join: "fs \<noteq> [] \<Longrightarrow> last fs \<noteq> [] \<Longrightarrow> last (join sep fs) = last (last fs)"
proof (induction sep fs rule: join.induct)
  case (3 sep p q ps)
  then have "join sep (q # ps) \<noteq> []" by (intro join_last_nonempty) auto
  then show ?case using 3 by simp
qed auto

lemma isspace_hd: "isspace s \<Longrightarrow> isspace_char (hd s)"
  by (cases s) (auto simp: isspace_def)

lemma translate_response:
  assumes "t \<noteq> []" and "\<not> isspace t" and "g (calls s) t = Response r"
  shows "translate_text_with_ai g t s = (strip r, made_call s)"
  using assms by (simp add: translate_text_with_ai_def upt_retries)

lemma butlast_sep: "butlast XML_SEPARATOR = ''\<newline>---''"
  by (simp add: XML_SEPARATOR_def)

lemma hello_translatable: "get_translatable_strings hello_table = [0, 2]"
  by (simp add: get_translatable_strings_def hello_table_def translatable_def upt_rec)

lemma hello_snippets:
  "all_xml_snippets_of ET_tostring hello_table [0, 2]
     = [''<string name=\"hello\">Hello</string>'', ''<string name=\"bye\">Goodbye</string>'']"
  by (simp add: all_xml_snippets_of_def hello_table_def write_attrib_def strip_def
      isspace_char_def)

lemma separator_translatable: "get_translatable_strings separator_in_text = [0]"
  by (simp add: get_translatable_strings_def separator_in_text_def translatable_def)

lemma separator_snippets:
  "all_xml_snippets_of ET_tostring separator_in_text [0]
     = [''<string name=\"a\">x\<newline>---\<newline>y</string>'']"
  by (simp add: all_xml_snippets_of_def separator_in_text_def write_attrib_def strip_def
      isspace_char_def)

text \<open>
  C9, as the program has it. Take a batch of at least one serialized fragment, none of
  them empty, in which no fragment contains the separator or ends with its first four
  characters (a line feed and three dashes). When the remote returns the batch text
  unchanged, the client hands back that same text, and splitting it on the separator
  and stripping every piece gives back exactly the fragments of the batch, as many and
  in the same order. The program does nothing to keep the separator out of a fragment:
  the condition is one on the string table.
\<close>

theorem echoed_batch_splits_into_its_fragments:
  assumes snips: "all_xml_snippets = all_xml_snippets_of tostring children strings_to_translate"
    and batch: "batch = take BATCH_SIZE (drop i all_xml_snippets)"
    and ne: "batch \<noteq> []"
    and free: "\<forall>f \<in> set batch. f \<noteq> [] \<and> \<not> py_in XML_SEPARATOR (f @ ''\<newline>---'')"
    and echo: "generate_content (calls s) (combined_text_at all_xml_snippets i)
                 = Response (combined_text_at all_xml_snippets i)"
  shows "map strip (split XML_SEPARATOR
            (fst (translate_text_with_ai generate_content (combined_text_at all_xml_snippets i) s)))
          = batch"
proof -
  let ?payload = "combined_text_at all_xml_snippets i"
  have pay: "?payload = join XML_SEPARATOR batch" by (simp add: combined_text_at_def batch)
  have "set batch \<subseteq> set all_xml_snippets" unfolding batch
    by (meson set_take_subset set_drop_subset subset_trans)
  then have stripped: "\<forall>f \<in> set batch. strip f = f"
    by (auto simp: snips all_xml_snippets_of_def strip_strip)
  have ends: "\<forall>f \<in> set batch. \<not> isspace_char (hd f) \<and> \<not> isspace_char (last f)"
  proof
    fix f assume f: "f \<in> set batch"
    then have "strip f \<noteq> []" using stripped free by simp
    then show "\<not> isspace_char (hd f) \<and> \<not> isspace_char (last f)"
      using strip_ends[of f] stripped f by simp
  qed
  obtain f fs where bf: "batch = f # fs" using ne by (cases batch) auto
  have fne: "f \<noteq> []" using free bf by simp
  have pne: "?payload \<noteq> []" unfolding pay bf using fne by (rule join_nonempty)
  have "hd ?payload = hd f" unfolding pay bf using fne by (rule hd_join)
  then have h: "\<not> isspace_char (hd ?payload)" using ends bf by simp
  have "last batch \<in> set batch" using ne by simp
  then have lne: "last batch \<noteq> []" and lsp: "\<not> isspace_char (last (last batch))"
    using free ends by auto
  have "last ?payload = last (last batch)" unfolding pay using ne lne by (rule last_join)
  then have l: "\<not> isspace_char (last ?payload)" using lsp by simp
  have nsp: "\<not> isspace ?payload" using h isspace_hd by blast
  have "translate_text_with_ai generate_content ?payload s = (strip ?payload, made_call s)"
    using pne nsp echo by (rule translate_response)
  moreover have "strip ?payload = ?payload" using pne h l by (rule strip_id)
  moreover have "split XML_SEPARATOR (join XML_SEPARATOR batch) = batch"
    using ne free by (intro split_join) (auto simp: butlast_sep XML_SEPARATOR_def)
  moreover have "map strip batch = batch" using stripped by (simp add: map_idI)
  ultimately show ?thesis by (simp add: pay)
qed

theorem echoed_batch_splits_into_its_fragments_witness:
  "\<not> py_in XML_SEPARATOR (''<string name=\"hello\">Hello</string>'' @ ''\<newline>---'')
   \<and> \<not> py_in XML_SEPARATOR (''<string name=\"bye\">Goodbye</string>'' @ ''\<newline>---'')
   \<and> echo (calls fresh_client)
        (combined_text_at (all_xml_snippets_of ET_tostring hello_table [0, 2]) 0)
       = Response (combined_text_at (all_xml_snippets_of ET_tostring hello_table [0, 2]) 0)
   \<and> map strip (split XML_SEPARATOR
        (fst (translate_text_with_ai echo
               (combined_text_at (all_xml_snippets_of ET_tostring hello_table [0, 2]) 0)
               fresh_client)))
       = [''<string name=\"hello\">Hello</string>'', ''<string name=\"bye\">Goodbye</string>'']"
proof -
  let ?snips = "all_xml_snippets_of ET_tostring hello_table [0, 2]"
  let ?batch = "[''<string name=\"hello\">Hello</string>'', ''<string name=\"bye\">Goodbye</string>'']"
  have f1: "\<not> py_in XML_SEPARATOR (''<string name=\"hello\">Hello</string>'' @ ''\<newline>---'')"
    by (simp add: XML_SEPARATOR_def)
  have f2: "\<not> py_in XML_SEPARATOR (''<string name=\"bye\">Goodbye</string>'' @ ''\<newline>---'')"
    by (simp add: XML_SEPARATOR_def)
  have b: "?batch = take BATCH_SIZE (drop 0 ?snips)"
    by (simp add: hello_snippets BATCH_SIZE_def)
  have free: "\<forall>f \<in> set ?batch. f \<noteq> [] \<and> \<not> py_in XML_SEPARATOR (f @ ''\<newline>---'')"
    using f1 f2 by simp
  have e: "echo (calls fresh_client) (combined_text_at ?snips 0)
             = Response (combined_text_at ?snips 0)"
    by (simp add: echo_def)
  have "map strip (split XML_SEPARATOR
          (fst (translate_text_with_ai echo (combined_text_at ?snips 0) fresh_client))) = ?batch"
    using echoed_batch_splits_into_its_fragments[where tostring = ET_tostring
        and children = hello_table and strings_to_translate = "[0, 2]"
        and all_xml_snippets = ?snips and batch = ?batch and i = 0
        and generate_content = echo and s = fresh_client, OF refl b _ free e]
    by simp
  then show ?thesis using f1 f2 e by blast
qed

text \<open>
  C9, as the claim words it, fails. A string whose text holds a line of three dashes is
  serialized with the separator inside it; the batch has one fragment, and the echo of
  its text splits into two pieces.
\<close>

theorem separator_inside_text_counterexample:
  "get_translatable_strings separator_in_text = [0]
   \<and> take BATCH_SIZE (drop 0 (all_xml_snippets_of ET_tostring separator_in_text [0]))
       = [''<string name=\"a\">x\<newline>---\<newline>y</string>'']
   \<and> split XML_SEPARATOR
        (fst (translate_text_with_ai echo
               (combined_text_at (all_xml_snippets_of ET_tostring separator_in_text [0]) 0)
               fresh_client))
       = [''<string name=\"a\">x'', ''y</string>'']"
  by (simp add: separator_translatable separator_snippets combined_text_at_def BATCH_SIZE_def
      translate_text_with_ai_def isspace_def isspace_char_def upt_retries echo_def strip_def
      XML_SEPARATOR_def)

section \<open>The gate\<close>

lemma config_apply: "config v btns w b = (if b \<in> set btns then v else w b)"
  unfolding config_def by (induction btns arbitrary: w) auto

text \<open>\<open>_update_ui_for_state\<close> changes the buttons and nothing else.\<close>

lemma update_ui_eq:
  "update_ui_for_state a =
     a\<lparr>widgets := (\<lambda>b. if expert_mode a then (if b \<in> set buttons then NORMAL else widgets a b)
                       else (case current_state a of
                               None \<Rightarrow> (if b \<in> set buttons then DISABLED else widgets a b)
                             | Some s \<Rightarrow> (if b \<in> set (state_map s) then NORMAL
                                         else if b \<in> set buttons then DISABLED
                                         else widgets a b)))\<rparr>"
  by (auto simp: update_ui_for_state_def Let_def config_apply fun_eq_iff split: option.splits)

lemma set_state_eq: "set_state s a = update_ui_for_state (a\<lparr>current_state := Some s\<rparr>)"
  by (simp add: set_state_def)

lemma state_map_single: "b \<in> set (state_map s) \<Longrightarrow> b \<in> set (state_map s') \<Longrightarrow> s' = s"
  by (cases s; cases s') auto

lemma extracted_app_fields:
  "current_state extracted_app = Some STRINGS_EXTRACTED"
  "expert_mode extracted_app = False"
  "xml_root extracted_app = Some (resources hello_table)"
  "widgets extracted_app step1_btn = NORMAL"
  "widgets extracted_app step4a_btn = NORMAL"
  "widgets extracted_app step5_btn = DISABLED"
  "written extracted_app = []"
  "client extracted_app = fresh_client"
  "progress_bar_value extracted_app = 0"
  by (simp_all add: extracted_app_def click_def initial_app_def created_app_def set_state_eq
      update_ui_eq run_step1_select_apk_def run_step2_decompile_def worker_decompile_def
      run_command_def falsy_def run_step3_extract_strings_def worker_extract_strings_def
      buttons_def fresh_client_def)

lemma update_ui_step1: "widgets (update_ui_for_state a) step1_btn = widgets a step1_btn"
  by (cases "current_state a"; cases "the (current_state a)")
     (simp_all add: update_ui_eq buttons_def)

lemma set_state_step1: "widgets (set_state s a) step1_btn = widgets a step1_btn"
  by (simp add: set_state_eq update_ui_step1)

lemma command_step1: "widgets (command p a) step1_btn = widgets a step1_btn"
  by (cases p)
     (auto simp: run_step1_select_apk_def run_step2_decompile_def worker_decompile_def
        run_step3_extract_strings_def worker_extract_strings_def run_step4_translate_def
        worker_translate_def run_step5_save_translated_def worker_save_translated_def
        run_step6_recompile_def worker_recompile_def run_step7_sign_def worker_sign_def
        set_state_step1 update_ui_step1 Let_def
        split: select_outcome.splits option.splits prod.splits)

lemma click_step1: "widgets (click p a) step1_btn = widgets a step1_btn"
  by (simp add: click_def command_step1)

lemma presses_step1: "widgets (fold click ps a) step1_btn = widgets a step1_btn"
  by (induction ps arbitrary: a) (simp_all add: click_step1)

lemma initial_step1: "widgets initial_app step1_btn = NORMAL"
  by (simp add: initial_app_def created_app_def set_state_step1)

text \<open>
  C7, as the program has it. With the override off and the machine in state \<open>s\<close>, after
  \<open>_update_ui_for_state\<close> each of the seven gated buttons (decompile, choose folder,
  extract, translate, save, recompile, sign) is enabled exactly when the state map
  lists it for \<open>s\<close>, and the state map lists a button for one state only. Pressing a
  gated button that \<open>s\<close> does not list changes nothing at all. In particular, in
  \<open>STRINGS_EXTRACTED\<close> the save button is disabled and pressing it leaves the
  application as it is: no file is written and the state stays. The select button is
  outside the gate: no press of any button and no change of the override changes its
  state, so after every sequence of presses from the start of the application it is
  enabled.
\<close>

theorem gate_with_override_off:
  assumes "\<not> expert_mode a" and "current_state a = Some s"
  shows "(btn \<in> set buttons \<longrightarrow>
            (widgets (update_ui_for_state a) btn = NORMAL \<longleftrightarrow> btn \<in> set (state_map s)))
       \<and> (btn \<in> set (state_map s) \<and> btn \<in> set (state_map s') \<longrightarrow> s' = s)
       \<and> (button_of p \<in> set buttons \<and> button_of p \<notin> set (state_map s) \<longrightarrow>
            click p (update_ui_for_state a) = update_ui_for_state a)
       \<and> (s = STRINGS_EXTRACTED \<longrightarrow>
            widgets (update_ui_for_state a) step5_btn = DISABLED
            \<and> click (SaveTranslated hebrew_path edited_content write_ok) (update_ui_for_state a)
                = update_ui_for_state a)
       \<and> (\<forall>q b. widgets (click q b) step1_btn = widgets b step1_btn)
       \<and> (\<forall>b. widgets (toggle_expert_mode b) step1_btn = widgets b step1_btn)
       \<and> (\<forall>presses. widgets (fold click presses initial_app) step1_btn = NORMAL)"
proof -
  have w: "\<And>b. b \<in> set buttons \<Longrightarrow>
      widgets (update_ui_for_state a) b = (if b \<in> set (state_map s) then NORMAL else DISABLED)"
    using assms by (simp add: update_ui_eq)
  have one: "btn \<in> set buttons \<longrightarrow>
            (widgets (update_ui_for_state a) btn = NORMAL \<longleftrightarrow> btn \<in> set (state_map s))"
    using w by simp
  have two: "btn \<in> set (state_map s) \<and> btn \<in> set (state_map s') \<longrightarrow> s' = s"
    using state_map_single by blast
  have three: "button_of p \<in> set buttons \<and> button_of p \<notin> set (state_map s) \<longrightarrow>
            click p (update_ui_for_state a) = update_ui_for_state a"
    using w by (simp add: click_def)
  have four: "s = STRINGS_EXTRACTED \<longrightarrow>
            widgets (update_ui_for_state a) step5_btn = DISABLED
            \<and> click (SaveTranslated hebrew_path edited_content write_ok) (update_ui_for_state a)
                = update_ui_for_state a"
    using w[of step5_btn] by (auto simp: click_def buttons_def)
  have five: "\<forall>q b. widgets (click q b) step1_btn = widgets b step1_btn"
    by (simp add: click_step1)
  have six: "\<forall>b. widgets (toggle_expert_mode b) step1_btn = widgets b step1_btn"
    by (simp add: toggle_expert_mode_def update_ui_step1)
  have seven: "\<forall>presses. widgets (fold click presses initial_app) step1_btn = NORMAL"
    by (simp add: presses_step1 initial_step1)
  show ?thesis using one two three four five six seven by blast
qed

theorem gate_with_override_off_witness:
  "\<not> expert_mode extracted_app
   \<and> current_state extracted_app = Some STRINGS_EXTRACTED
   \<and> step5_btn \<in> set buttons
   \<and> step5_btn \<notin> set (state_map STRINGS_EXTRACTED)
   \<and> widgets (update_ui_for_state extracted_app) step5_btn = DISABLED
   \<and> click (SaveTranslated ''work/app/res/values-he-rIL/strings.xml'' ''<resources />'' True)
        (update_ui_for_state extracted_app) = update_ui_for_state extracted_app
   \<and> written (click (SaveTranslated ''work/app/res/values-he-rIL/strings.xml'' ''<resources />'' True)
        (update_ui_for_state extracted_app)) = []
   \<and> widgets (fold click
        [SelectApk ''app.apk'' ''work/app.apk'' Copied, Decompile ''work/app'' (Exited 0),
         ExtractStrings True ''work/app/res/values/strings.xml'' True (Some (resources hello_table))]
        initial_app) step1_btn = NORMAL"
proof -
  have h1: "\<not> expert_mode extracted_app" by (simp add: extracted_app_fields)
  have h2: "current_state extracted_app = Some STRINGS_EXTRACTED"
    by (simp add: extracted_app_fields)
  note inst = gate_with_override_off[OF h1 h2, where btn = step5_btn and s' = TRANSLATION_COMPLETE
        and p = "SaveTranslated ''work/app/res/values-he-rIL/strings.xml'' ''<resources />'' True"
        and hebrew_path = "''work/app/res/values-he-rIL/strings.xml''"
        and edited_content = "''<resources />''" and write_ok = True]
  have b: "step5_btn \<in> set buttons" by (simp add: buttons_def)
  have n: "step5_btn \<notin> set (state_map STRINGS_EXTRACTED)" by simp
  have r1: "widgets (update_ui_for_state extracted_app) step5_btn = DISABLED"
    using inst by blast
  have r2: "click (SaveTranslated ''work/app/res/values-he-rIL/strings.xml'' ''<resources />'' True)
        (update_ui_for_state extracted_app) = update_ui_for_state extracted_app"
    using inst by blast
  have "written (update_ui_for_state extracted_app) = []"
    by (simp add: update_ui_eq extracted_app_fields)
  then have r3: "written (click (SaveTranslated ''work/app/res/values-he-rIL/strings.xml'' ''<resources />'' True)
        (update_ui_for_state extracted_app)) = []"
    using r2 by simp
  have r4: "widgets (fold click
        [SelectApk ''app.apk'' ''work/app.apk'' Copied, Decompile ''work/app'' (Exited 0),
         ExtractStrings True ''work/app/res/values/strings.xml'' True (Some (resources hello_table))]
        initial_app) step1_btn = NORMAL"
    using inst by blast
  show ?thesis using h1 h2 b n r1 r2 r3 r4 by blast
qed

text \<open>
  C7, as the claim words it, fails for the select stage, which no state gates: with the
  override off its button is enabled in \<open>DECOMPILED\<close> and in \<open>SAVED\<close> alike, and pressing
  it in \<open>DECOMPILED\<close> runs the stage and moves the machine to \<open>APK_SELECTED\<close>.
\<close>

theorem select_stage_counterexample:
  "\<not> expert_mode (set_state DECOMPILED initial_app)
   \<and> current_state (set_state DECOMPILED initial_app) = Some DECOMPILED
   \<and> widgets (set_state DECOMPILED initial_app) step1_btn = NORMAL
   \<and> widgets (set_state SAVED initial_app) step1_btn = NORMAL
   \<and> current_state (click (SelectApk ''b.apk'' ''work/b.apk'' Copied)
        (set_state DECOMPILED initial_app)) = Some APK_SELECTED"
  by (simp add: click_def initial_app_def created_app_def set_state_eq update_ui_eq
      run_step1_select_apk_def buttons_def)

section \<open>Translatable strings, batches and the positional update\<close>

lemma translatable_strings_eq:
  "map ((!) children) (get_translatable_strings children)
     = filter (\<lambda>t. el_tag t = ''string'' \<and> translatable t) children"
proof -
  let ?P = "\<lambda>t. el_tag t = ''string'' \<and> translatable t"
  have "map ((!) children) (filter (?P \<circ> (!) children) [0..<length children])
          = filter ?P (map ((!) children) [0..<length children])"
    by (simp add: filter_map)
  then show ?thesis by (simp add: get_translatable_strings_def comp_def map_nth)
qed

lemma translatable_strings_set:
  "set (get_translatable_strings children)
     = {i. i < length children \<and> el_tag (children ! i) = ''string'' \<and> translatable (children ! i)}"
  by (auto simp: get_translatable_strings_def)

lemma translatable_strings_distinct: "distinct (get_translatable_strings children)"
  by (simp add: get_translatable_strings_def)

lemma translatable_strings_sorted: "sorted (get_translatable_strings children)"
  by (simp add: get_translatable_strings_def sorted_wrt_filter)

lemma concat_batches_from:
  "0 < n \<Longrightarrow> concat (map (\<lambda>i. take n (drop i xs)) (py_range i (length xs) n)) = drop i xs"
proof (induction i "length xs" n rule: py_range.induct)
  case (1 i step)
  show ?case
  proof (cases "i < length xs")
    case True
    then have "concat (map (\<lambda>i. take step (drop i xs)) (py_range (i + step) (length xs) step))
                 = drop (i + step) xs"
      using 1 by simp
    moreover have "take step (drop i xs) @ drop (i + step) xs = drop i xs"
      by (metis add.commute append_take_drop_id drop_drop)
    ultimately show ?thesis using True 1(2) by (simp add: py_range.simps[of i])
  next
    case False
    then show ?thesis by (simp add: py_range.simps[of i])
  qed
qed

lemma py_range_bounds: "j \<in> set (py_range i stop step) \<Longrightarrow> i \<le> j \<and> j < stop \<and> 0 < step"
proof (induction i stop step rule: py_range.induct)
  case (1 i stop step)
  then show ?case
    by (cases "0 < step \<and> i < stop") (auto simp: py_range.simps[of i stop step])
qed

lemma py_range_sorted: "sorted_wrt (\<lambda>a b. a + step \<le> b) (py_range i stop step)"
proof (induction i stop step rule: py_range.induct)
  case (1 i stop step)
  show ?case
  proof (cases "0 < step \<and> i < stop")
    case True
    then show ?thesis using 1 py_range_bounds[of _ "i + step" stop step]
      by (auto simp: py_range.simps[of i stop step])
  next
    case False
    then show ?thesis by (auto simp: py_range.simps[of i stop step])
  qed
qed

lemma length_apply_fragments [simp]: "length (apply_fragments fs ps ts) = length ts"
  by (induction ps arbitrary: ts) auto

lemma apply_fragments_other:
  "r \<notin> fst ` set ps \<Longrightarrow> apply_fragments fs ps ts ! r = ts ! r"
  by (induction ps arbitrary: ts) auto

lemma apply_fragments_nth:
  "distinct (map fst ps) \<Longrightarrow> (r, x) \<in> set ps \<Longrightarrow> r < length ts
     \<Longrightarrow> apply_fragments fs ps ts ! r = apply_fragment fs x (ts ! r)"
proof (induction ps arbitrary: ts)
  case Nil
  then show ?case by simp
next
  case (Cons p ps)
  obtain r' x' where p: "p = (r', x')" by (cases p)
  show ?case
  proof (cases "(r, x) = (r', x')")
    case True
    then have "r \<notin> fst ` set ps" using Cons.prems(1) p by auto
    then show ?thesis using True p Cons.prems(3) by (simp add: apply_fragments_other)
  next
    case False
    then have mem: "(r, x) \<in> set ps" using Cons.prems(2) p by auto
    then have "r \<noteq> r'" using Cons.prems(1) p by (auto simp: image_iff)
    moreover have "distinct (map fst ps)" using Cons.prems(1) by simp
    ultimately show ?thesis using Cons.IH[OF _ mem, of "ts[r' := apply_fragment fs x' (ts ! r')]"]
        Cons.prems(3) p by simp
  qed
qed

lemma update_tags_positional:
  assumes "length (split XML_SEPARATOR resp) = length original_tags"
    and "distinct original_tags" and "k < length original_tags"
    and "original_tags ! k < length ts"
  shows "update_tags_from_response fs original_tags resp ts
           = (True, apply_fragments fs (zip original_tags (split XML_SEPARATOR resp)) ts)"
    and "snd (update_tags_from_response fs original_tags resp ts) ! (original_tags ! k)
           = apply_fragment fs (split XML_SEPARATOR resp ! k) (ts ! (original_tags ! k))"
proof -
  let ?ps = "zip original_tags (split XML_SEPARATOR resp)"
  show eq: "update_tags_from_response fs original_tags resp ts = (True, apply_fragments fs ?ps ts)"
    using assms(1) by (simp add: update_tags_from_response_def)
  have "distinct (map fst ?ps)" using assms(1,2) by simp
  moreover have "(original_tags ! k, split XML_SEPARATOR resp ! k) \<in> set ?ps"
    using assms(1,3) by (metis in_set_zip fst_conv snd_conv)
  ultimately show "snd (update_tags_from_response fs original_tags resp ts) ! (original_tags ! k)
           = apply_fragment fs (split XML_SEPARATOR resp ! k) (ts ! (original_tags ! k))"
    using assms(4) eq by (simp add: apply_fragments_nth)
qed

lemma update_tags_other:
  "r \<notin> set original_tags \<Longrightarrow> snd (update_tags_from_response fs original_tags resp ts) ! r = ts ! r"
proof -
  assume r: "r \<notin> set original_tags"
  have "fst ` set (zip original_tags (split XML_SEPARATOR resp)) \<subseteq> set original_tags"
    by (auto dest: set_zip_leftD)
  then have "r \<notin> fst ` set (zip original_tags (split XML_SEPARATOR resp))" using r by blast
  then show ?thesis
    by (simp add: update_tags_from_response_def Let_def apply_fragments_other)
qed

lemma length_update_tags [simp]:
  "length (snd (update_tags_from_response fs original_tags resp ts)) = length ts"
  by (simp add: update_tags_from_response_def Let_def)

lemma batch_nonempty:
  assumes "i \<in> set (py_range 0 (length xs) BATCH_SIZE)"
  shows "batch_tags_at xs i \<noteq> [] \<and> length (batch_tags_at xs i) \<le> BATCH_SIZE"
  using py_range_bounds[OF assms] by (simp add: batch_tags_at_def BATCH_SIZE_def)

lemma batch_subset: "set (batch_tags_at xs i) \<subseteq> set xs"
  unfolding batch_tags_at_def by (meson set_take_subset set_drop_subset subset_trans)

lemma batch_distinct: "distinct xs \<Longrightarrow> distinct (batch_tags_at xs i)"
  by (simp add: batch_tags_at_def)

lemma batch_nth: "k < length (batch_tags_at xs i) \<Longrightarrow> batch_tags_at xs i ! k = xs ! (i + k)"
proof -
  assume "k < length (batch_tags_at xs i)"
  then have "k < BATCH_SIZE" and "i + k \<le> length xs" by (auto simp: batch_tags_at_def)
  then show ?thesis by (simp add: batch_tags_at_def)
qed

lemma concat_batches:
  "concat (map (batch_tags_at xs) (py_range 0 (length xs) BATCH_SIZE)) = xs"
  using concat_batches_from[of BATCH_SIZE xs 0]
  by (simp add: batch_tags_at_def[abs_def] BATCH_SIZE_def)

lemma split_swapped_response:
  "split XML_SEPARATOR swapped_response
     = [''<string name=\"bye\">Lehitraot</string>'', ''<string name=\"hello\">Shalom</string>'']"
  by (simp add: swapped_response_def XML_SEPARATOR_def)

lemma py_range_one_batch: "0 < n \<Longrightarrow> n \<le> BATCH_SIZE \<Longrightarrow> py_range 0 n BATCH_SIZE = [0]"
  unfolding BATCH_SIZE_def by (simp add: py_range.simps[of 0 n 100] py_range.simps[of 100 n 100])

section \<open>The batch loop\<close>

lemma run_batches_api_failure:
  assumes "translate_text_with_ai gen (combined_text_at snips i) (net st) = (resp, net')"
    and "py_in ''ERROR_'' resp"
  shows "run_batches fs gen refs snips (i # rest) st = (Some (ApiFailure resp), st\<lparr>net := net'\<rparr>)"
  using assms by simp

lemma run_batches_mismatch:
  assumes "translate_text_with_ai gen (combined_text_at snips i) (net st) = (resp, net')"
    and "\<not> py_in ''ERROR_'' resp"
    and "length (split XML_SEPARATOR resp) \<noteq> length (batch_tags_at refs i)"
  shows "run_batches fs gen refs snips (i # rest) st = (Some CardinalityMismatch, st\<lparr>net := net'\<rparr>)"
  using assms by (simp add: update_tags_from_response_def)

lemma run_batches_applied:
  assumes "translate_text_with_ai gen (combined_text_at snips i) (net st) = (resp, net')"
    and "\<not> py_in ''ERROR_'' resp"
    and "length (split XML_SEPARATOR resp) = length (batch_tags_at refs i)"
  shows "run_batches fs gen refs snips (i # rest) st
           = run_batches fs gen refs snips rest
               (st\<lparr>store := snd (update_tags_from_response fs (batch_tags_at refs i) resp (store st)),
                   net := net',
                   translated_count := translated_count st + length (batch_tags_at refs i),
                   progress_value := translated_count st + length (batch_tags_at refs i)\<rparr>)"
  using assms by (simp add: update_tags_from_response_def Let_def)

lemma run_batches_append:
  "run_batches fs gen refs snips (xs @ ys) st
     = (case run_batches fs gen refs snips xs st of
          (None, st') \<Rightarrow> run_batches fs gen refs snips ys st'
        | (Some failure, st') \<Rightarrow> (Some failure, st'))"
proof (induction xs arbitrary: st)
  case Nil
  then show ?case by simp
next
  case (Cons i xs)
  obtain resp net' where t: "translate_text_with_ai gen (combined_text_at snips i) (net st) = (resp, net')"
    by (cases "translate_text_with_ai gen (combined_text_at snips i) (net st)")
  show ?case
  proof (cases "py_in ''ERROR_'' resp")
    case True
    then show ?thesis using t by simp
  next
    case False
    show ?thesis
    proof (cases "length (split XML_SEPARATOR resp) = length (batch_tags_at refs i)")
      case True
      show ?thesis
        unfolding append_Cons run_batches_applied[OF t False True] Cons.IH ..
    next
      case m: False
      show ?thesis
        unfolding append_Cons run_batches_mismatch[OF t False m] by simp
    qed
  qed
qed

lemma run_batches_frame:
  assumes "run_batches fs gen refs snips idxs st = (x, st')"
    and "\<forall>j \<in> set idxs. r \<notin> set (batch_tags_at refs j)"
  shows "store st' ! r = store st ! r"
  using assms
proof (induction idxs arbitrary: st)
  case Nil
  then show ?case by simp
next
  case (Cons i idxs)
  obtain resp net' where t: "translate_text_with_ai gen (combined_text_at snips i) (net st) = (resp, net')"
    by (cases "translate_text_with_ai gen (combined_text_at snips i) (net st)")
  show ?case
  proof (cases "py_in ''ERROR_'' resp")
    case True
    then show ?thesis using t Cons.prems(1) by auto
  next
    case False
    show ?thesis
    proof (cases "length (split XML_SEPARATOR resp) = length (batch_tags_at refs i)")
      case True
      let ?st = "st\<lparr>store := snd (update_tags_from_response fs (batch_tags_at refs i) resp (store st)),
                   net := net',
                   translated_count := translated_count st + length (batch_tags_at refs i),
                   progress_value := translated_count st + length (batch_tags_at refs i)\<rparr>"
      have "run_batches fs gen refs snips idxs ?st = (x, st')"
        using Cons.prems(1) run_batches_applied[OF t False True] by simp
      then have "store st' ! r = store ?st ! r" using Cons.IH Cons.prems(2) by simp
      moreover have "r \<notin> set (batch_tags_at refs i)" using Cons.prems(2) by simp
      ultimately show ?thesis by (simp add: update_tags_other)
    next
      case m: False
      then show ?thesis using Cons.prems(1) run_batches_mismatch[OF t False m] by auto
    qed
  qed
qed

lemma apply_fragment_fields:
  "el_tag (apply_fragment fs x t) = el_tag t"
  "el_attrib (apply_fragment fs x t) = el_attrib t"
  "el_children (apply_fragment fs x t) = el_children t"
  "el_tail (apply_fragment fs x t) = el_tail t"
  by (simp_all add: apply_fragment_def set_text_def split: option.splits)

lemma apply_fragments_keeps:
  assumes "\<And>x t. g (apply_fragment fs x t) = g t"
  shows "map g (apply_fragments fs ps ts) = map g ts"
proof (induction ps arbitrary: ts)
  case Nil
  then show ?case by simp
next
  case (Cons p ps)
  obtain r x where p: "p = (r, x)" by (cases p)
  have "map g (ts[r := apply_fragment fs x (ts ! r)]) = map g ts"
  proof (cases "r < length ts")
    case True
    then show ?thesis by (simp add: map_update assms list_update_same_conv)
  next
    case False
    then have "ts[r := apply_fragment fs x (ts ! r)] = ts" by (intro list_update_beyond) simp
    then show ?thesis by simp
  qed
  then show ?case using Cons.IH[of "ts[r := apply_fragment fs x (ts ! r)]"] p by simp
qed

lemma update_tags_keeps:
  assumes "\<And>x t. g (apply_fragment fs x t) = g t"
  shows "map g (snd (update_tags_from_response fs tags resp ts)) = map g ts"
  using apply_fragments_keeps[of g fs, OF assms]
  by (simp add: update_tags_from_response_def Let_def)

lemma run_batches_keeps:
  assumes g: "\<And>x t. g (apply_fragment fs x t) = g t"
    and "run_batches fs gen refs snips idxs st = (x, st')"
  shows "map g (store st') = map g (store st)"
  using assms(2)
proof (induction idxs arbitrary: st)
  case Nil
  then show ?case by simp
next
  case (Cons i idxs)
  obtain resp net' where t: "translate_text_with_ai gen (combined_text_at snips i) (net st) = (resp, net')"
    by (cases "translate_text_with_ai gen (combined_text_at snips i) (net st)")
  show ?case
  proof (cases "py_in ''ERROR_'' resp")
    case True
    then show ?thesis using t Cons.prems(1) by auto
  next
    case False
    show ?thesis
    proof (cases "length (split XML_SEPARATOR resp) = length (batch_tags_at refs i)")
      case True
      let ?st = "st\<lparr>store := snd (update_tags_from_response fs (batch_tags_at refs i) resp (store st)),
                   net := net',
                   translated_count := translated_count st + length (batch_tags_at refs i),
                   progress_value := translated_count st + length (batch_tags_at refs i)\<rparr>"
      have "run_batches fs gen refs snips idxs ?st = (x, st')"
        using Cons.prems(1) run_batches_applied[OF t False True] by simp
      then have "map g (store st') = map g (store ?st)" by (rule Cons.IH)
      then show ?thesis using update_tags_keeps[of g fs, OF g] by simp
    next
      case m: False
      then show ?thesis using Cons.prems(1) run_batches_mismatch[OF t False m] by auto
    qed
  qed
qed

lemma earlier_batches_before:
  assumes "py_range 0 n BATCH_SIZE = earlier @ i # later" and "j \<in> set earlier"
  shows "set (batch_tags_at refs j) \<subseteq> set (take i refs)"
proof -
  have "sorted_wrt (\<lambda>a b. a + BATCH_SIZE \<le> b) (earlier @ i # later)"
    using py_range_sorted[of BATCH_SIZE 0 n] assms(1) by simp
  then have le: "j + BATCH_SIZE \<le> i" using assms(2) by (auto simp: sorted_wrt_append)
  have "batch_tags_at refs j = drop j (take (BATCH_SIZE + j) refs)"
    by (simp add: batch_tags_at_def take_drop)
  then have "set (batch_tags_at refs j) \<subseteq> set (take (BATCH_SIZE + j) refs)"
    by (simp add: set_drop_subset)
  moreover have "set (take (BATCH_SIZE + j) refs) \<subseteq> set (take i refs)"
    using le by (intro set_take_subset_set_take) simp
  ultimately show ?thesis by blast
qed

lemma later_records_apart:
  assumes "distinct refs" and "r \<in> set (drop i refs)"
  shows "r \<notin> set (take i refs)"
proof -
  have "distinct (take i refs @ drop i refs)" using assms(1) by simp
  then show ?thesis using assms(2) by (auto simp del: append_take_drop_id)
qed

lemma terminal_failure_marked: "terminal_failure r \<Longrightarrow> py_in ''ERROR_'' r"
proof -
  assume "terminal_failure r"
  then have "prefix ''ERROR_'' r"
    by (auto simp: terminal_failure_def prefix_def)
  then show ?thesis by (rule py_in_prefix)
qed

text \<open>
  What the client returns is the empty text for a blank batch text, the stripped text
  of a response, or a terminal failure.
\<close>

lemma attempts_result:
  "attempts g t as s = (r, s') \<Longrightarrow> (\<exists>n answer. g n t = Response answer \<and> r = strip answer) \<or> terminal_failure r"
proof (induction as arbitrary: s)
  case Nil
  then show ?case by (simp add: terminal_failure_def)
next
  case (Cons a as)
  let ?retry = "attempts g t as (sleep API_RATE_LIMIT_WAIT_SEC (made_call s))"
  have ih: "?retry = (r, s') \<Longrightarrow> ?case" by (rule Cons.IH)
  show ?case
  proof (cases "g (calls s) t")
    case (Response answer)
    then have "r = strip answer" using Cons.prems by simp
    then show ?thesis using Response by blast
  next
    case (NetworkError e)
    show ?thesis
    proof (cases "a < API_MAX_RETRIES - 1")
      case True
      then have "?retry = (r, s')" using Cons.prems NetworkError by simp
      then show ?thesis by (rule ih)
    next
      case False
      then have "r = ''ERROR_TIMEOUT: '' @ e" using Cons.prems NetworkError by simp
      then show ?thesis by (simp add: terminal_failure_def)
    qed
  next
    case (OtherError e)
    show ?thesis
    proof (cases "py_in ''resource_exhausted'' (lower e) \<or> py_in ''rate limit'' (lower e)")
      case limited: True
      show ?thesis
      proof (cases "a < API_MAX_RETRIES - 1")
        case True
        then have "?retry = (r, s')" using Cons.prems OtherError limited by auto
        then show ?thesis by (rule ih)
      next
        case False
        then have "r = ''ERROR_RATE_LIMIT''" using Cons.prems OtherError limited by auto
        then show ?thesis by (simp add: terminal_failure_def)
      qed
    next
      case False
      then have "r = ''ERROR_UNEXPECTED: '' @ e" using Cons.prems OtherError by simp
      then show ?thesis by (simp add: terminal_failure_def)
    qed
  qed
qed

lemma translate_result:
  "translate_text_with_ai g t s = (r, s')
     \<Longrightarrow> r = [] \<or> (\<exists>n answer. g n t = Response answer \<and> r = strip answer) \<or> terminal_failure r"
proof -
  assume a: "translate_text_with_ai g t s = (r, s')"
  show ?thesis
  proof (cases "t = [] \<or> isspace t")
    case True
    then show ?thesis using a by (simp add: translate_text_with_ai_def)
  next
    case False
    then have "attempts g t [0..<API_MAX_RETRIES] s = (r, s')"
      using a by (simp add: translate_text_with_ai_def)
    then show ?thesis using attempts_result by blast
  qed
qed

text \<open>
  C1. Let the batches before the one that starts at \<open>i\<close> have been applied, leaving the
  run in state \<open>st\<close>, and let the client return \<open>resp\<close> for batch \<open>i\<close>. If \<open>resp\<close> is a
  terminal failure of the client, or splits into a number of fragments other than the
  number of records of the batch, the whole run ends there with a failure: its store is
  the store of \<open>st\<close>, so the earlier batches keep what was applied to them, the client
  is not called again, and every record of batch \<open>i\<close> and of the later batches is what it
  was when the run started.
\<close>

theorem failed_batch_aborts_the_run:
  assumes refs: "strings_to_translate = get_translatable_strings children"
    and idxs: "py_range 0 (length strings_to_translate) BATCH_SIZE = earlier @ i # later"
    and before: "run_batches fromstring generate_content strings_to_translate all_xml_snippets
                   earlier st0 = (None, st)"
    and adapter: "translate_text_with_ai generate_content (combined_text_at all_xml_snippets i) (net st)
                   = (resp, net')"
    and failed: "terminal_failure resp
                 \<or> length (split XML_SEPARATOR resp) \<noteq> length (batch_tags_at strings_to_translate i)"
  shows "(\<exists>failure. run_batches fromstring generate_content strings_to_translate all_xml_snippets
            (py_range 0 (length strings_to_translate) BATCH_SIZE) st0
              = (Some failure, st\<lparr>net := net'\<rparr>))
       \<and> (\<forall>r \<in> set (drop i strings_to_translate). store st ! r = store st0 ! r)"
proof -
  have step: "\<exists>failure. run_batches fromstring generate_content strings_to_translate all_xml_snippets
                 (i # later) st = (Some failure, st\<lparr>net := net'\<rparr>)"
  proof (cases "py_in ''ERROR_'' resp")
    case True
    then show ?thesis using run_batches_api_failure[OF adapter True] by blast
  next
    case False
    then have "length (split XML_SEPARATOR resp) \<noteq> length (batch_tags_at strings_to_translate i)"
      using failed terminal_failure_marked by blast
    then show ?thesis using run_batches_mismatch[OF adapter False] by blast
  qed
  then have one: "\<exists>failure. run_batches fromstring generate_content strings_to_translate all_xml_snippets
            (py_range 0 (length strings_to_translate) BATCH_SIZE) st0
              = (Some failure, st\<lparr>net := net'\<rparr>)"
    unfolding idxs run_batches_append before by simp
  have two: "\<forall>r \<in> set (drop i strings_to_translate). store st ! r = store st0 ! r"
  proof
    fix r assume r: "r \<in> set (drop i strings_to_translate)"
    have "distinct strings_to_translate" by (simp add: refs translatable_strings_distinct)
    then have "r \<notin> set (take i strings_to_translate)" using r by (rule later_records_apart)
    then have "\<forall>j \<in> set earlier. r \<notin> set (batch_tags_at strings_to_translate j)"
      using earlier_batches_before[OF idxs] by blast
    then show "store st ! r = store st0 ! r" using run_batches_frame[OF before] by blast
  qed
  show ?thesis using one two by blast
qed

section \<open>Batches in order, fragments by position\<close>

lemma batch_snippets:
  "take BATCH_SIZE (drop i (all_xml_snippets_of tostring children refs))
     = map (\<lambda>tag. strip (tostring (children ! tag))) (batch_tags_at refs i)"
  by (simp add: all_xml_snippets_of_def batch_tags_at_def take_map drop_map)

lemma batch_before:
  "set (batch_tags_at refs i) \<subseteq> set (take (i + BATCH_SIZE) refs)"
proof -
  have "batch_tags_at refs i = drop i (take (BATCH_SIZE + i) refs)"
    by (simp add: batch_tags_at_def take_drop)
  then show ?thesis by (simp add: set_drop_subset add.commute)
qed

lemma later_batches_after:
  assumes "py_range 0 n BATCH_SIZE = earlier @ i # later" and "j \<in> set later"
  shows "set (batch_tags_at refs j) \<subseteq> set (drop (i + BATCH_SIZE) refs)"
proof -
  have "sorted_wrt (\<lambda>a b. a + BATCH_SIZE \<le> b) (earlier @ i # later)"
    using py_range_sorted[of BATCH_SIZE 0 n] assms(1) by simp
  then have le: "i + BATCH_SIZE \<le> j" using assms(2) by (auto simp: sorted_wrt_append)
  have "set (batch_tags_at refs j) \<subseteq> set (drop j refs)"
    unfolding batch_tags_at_def by (rule set_take_subset)
  moreover have "set (drop j refs) \<subseteq> set (drop (i + BATCH_SIZE) refs)"
    using le by (rule set_drop_subset_set_drop)
  ultimately show ?thesis by blast
qed

lemma run_batches_length:
  assumes "run_batches fs gen refs snips idxs st = (x, st')"
  shows "length (store st') = length (store st)"
  using run_batches_keeps[of el_tag fs gen refs snips idxs st x st', OF _ assms]
    map_eq_imp_length_eq[of el_tag "store st'" el_tag "store st"]
  by (simp add: apply_fragment_fields)

text \<open>
  C2. The batches that the loop forms from a list, one for each start position of
  \<open>range(0, total_strings, BATCH_SIZE)\<close> and put one after the other, are that list
  again: nothing is reordered, repeated or lost. The list the program batches holds the
  translatable strings of the table in document order. Now take a run of
  \<open>_worker_translate\<close> in which the batches before the one that starts at \<open>i\<close> have
  been applied, leaving the run in state \<open>st\<close>, and in which the client, called with the
  text of batch \<open>i\<close>, returns \<open>resp\<close>, a text without \<open>ERROR_\<close> that splits into as
  many fragments as the batch has records. The batch has between 1 and 100 records, and
  record \<open>k\<close> of it is translatable record \<open>i + k\<close>. The text sent is the separator
  joining the stripped serializations of the records of the batch, in their order, so
  that snippet \<open>k\<close> of the request is the serialization of translatable record
  \<open>i + k\<close>, taken from the table as it was extracted; this record is still untouched
  when its batch is sent. The run goes on with the later batches from the state in
  which \<open>resp\<close> has been applied, and in that state, as at the end of the run however
  it ends, record \<open>k\<close> of the batch is what the loop body makes of fragment \<open>k\<close> of
  \<open>resp\<close> and of the record as extracted: which fragment a record receives depends on
  the position alone, and the name and the attributes inside the fragment play no part.
\<close>

theorem batches_keep_order_and_fragments_go_by_position:
  assumes refs: "strings_to_translate = get_translatable_strings children"
    and snips: "all_xml_snippets = all_xml_snippets_of tostring children strings_to_translate"
    and idxs: "py_range 0 (length strings_to_translate) BATCH_SIZE = earlier @ i # later"
    and before: "run_batches fromstring generate_content strings_to_translate all_xml_snippets earlier
                   \<lparr>store = children, net = s, translated_count = 0, progress_value = shown\<rparr>
                   = (None, st)"
    and batch: "batch_tags = batch_tags_at strings_to_translate i"
    and adapter: "translate_text_with_ai generate_content (combined_text_at all_xml_snippets i) (net st)
                   = (resp, net')"
    and unmarked: "\<not> py_in ''ERROR_'' resp"
    and count: "length (split XML_SEPARATOR resp) = length batch_tags"
    and k: "k < length batch_tags"
  shows "concat (map (batch_tags_at xs) (py_range 0 (length xs) BATCH_SIZE)) = xs
       \<and> map ((!) children) strings_to_translate
           = filter (\<lambda>t. el_tag t = ''string'' \<and> translatable t) children
       \<and> 0 < length batch_tags \<and> length batch_tags \<le> BATCH_SIZE
       \<and> batch_tags ! k = strings_to_translate ! (i + k)
       \<and> combined_text_at all_xml_snippets i
           = join XML_SEPARATOR (map (\<lambda>tag. strip (tostring (children ! tag))) batch_tags)
       \<and> take BATCH_SIZE (drop i all_xml_snippets) ! k
           = strip (tostring (children ! (strings_to_translate ! (i + k))))
       \<and> store st ! (batch_tags ! k) = children ! (batch_tags ! k)
       \<and> translation_run tostring fromstring generate_content children s shown
           = run_batches fromstring generate_content strings_to_translate all_xml_snippets later
               (st\<lparr>store := snd (update_tags_from_response fromstring batch_tags resp (store st)),
                   net := net',
                   translated_count := translated_count st + length batch_tags,
                   progress_value := translated_count st + length batch_tags\<rparr>)
       \<and> snd (update_tags_from_response fromstring batch_tags resp (store st)) ! (batch_tags ! k)
           = apply_fragment fromstring (split XML_SEPARATOR resp ! k) (children ! (batch_tags ! k))
       \<and> store (snd (translation_run tostring fromstring generate_content children s shown))
           ! (batch_tags ! k)
           = apply_fragment fromstring (split XML_SEPARATOR resp ! k) (children ! (batch_tags ! k))"
proof -
  let ?st0 = "\<lparr>store = children, net = s, translated_count = 0, progress_value = shown\<rparr>"
  let ?r = "batch_tags ! k"
  let ?S = "snd (update_tags_from_response fromstring batch_tags resp (store st))"
  let ?st' = "st\<lparr>store := ?S, net := net',
                 translated_count := translated_count st + length batch_tags,
                 progress_value := translated_count st + length batch_tags\<rparr>"
  have i: "i \<in> set (py_range 0 (length strings_to_translate) BATCH_SIZE)"
    unfolding idxs by simp
  have dr: "distinct strings_to_translate" by (simp add: refs translatable_strings_distinct)
  have d: "distinct batch_tags" unfolding batch using dr by (rule batch_distinct)
  have mem: "?r \<in> set batch_tags" using k by simp
  then have memr: "?r \<in> set strings_to_translate"
    using batch batch_subset[of strings_to_translate i] by blast
  have len: "length (store st) = length children"
    using run_batches_length[OF before] by simp
  have r: "?r < length (store st)"
    using memr len by (simp add: refs translatable_strings_set)
  have ne: "0 < length batch_tags \<and> length batch_tags \<le> BATCH_SIZE"
    using batch_nonempty[OF i] batch by simp
  have nth: "?r = strings_to_translate ! (i + k)"
    using k unfolding batch by (rule batch_nth)
  have sn: "take BATCH_SIZE (drop i all_xml_snippets)
              = map (\<lambda>tag. strip (tostring (children ! tag))) batch_tags"
    unfolding snips batch by (rule batch_snippets)
  have req: "combined_text_at all_xml_snippets i
           = join XML_SEPARATOR (map (\<lambda>tag. strip (tostring (children ! tag))) batch_tags)"
    by (simp add: combined_text_at_def sn)
  have frag: "take BATCH_SIZE (drop i all_xml_snippets) ! k
           = strip (tostring (children ! (strings_to_translate ! (i + k))))"
    using k nth by (simp add: sn)
  have "?r \<in> set (drop i strings_to_translate)"
    using mem unfolding batch batch_tags_at_def by (rule in_set_takeD)
  then have "?r \<notin> set (take i strings_to_translate)" using dr by (intro later_records_apart)
  then have "\<forall>j \<in> set earlier. ?r \<notin> set (batch_tags_at strings_to_translate j)"
    using earlier_batches_before[OF idxs] by blast
  then have "store st ! ?r = store ?st0 ! ?r" using run_batches_frame[OF before] by blast
  then have untouched: "store st ! ?r = children ! ?r" by simp
  have run: "translation_run tostring fromstring generate_content children s shown
           = run_batches fromstring generate_content strings_to_translate all_xml_snippets later ?st'"
    unfolding translation_run_def Let_def refs[symmetric] snips[symmetric] idxs run_batches_append
      before
    using run_batches_applied[OF adapter unmarked count[unfolded batch], of fromstring later]
    by (simp add: batch)
  have applied: "?S ! ?r = apply_fragment fromstring (split XML_SEPARATOR resp ! k) (children ! ?r)"
    using update_tags_positional(2)[OF count d k r, of fromstring] untouched by simp
  have "?r \<in> set (take (i + BATCH_SIZE) strings_to_translate)"
    using mem batch_before[of strings_to_translate i] batch by blast
  then have "?r \<notin> set (drop (i + BATCH_SIZE) strings_to_translate)"
    using dr later_records_apart[of strings_to_translate _ "i + BATCH_SIZE"] by blast
  then have apart: "\<forall>j \<in> set later. ?r \<notin> set (batch_tags_at strings_to_translate j)"
    using later_batches_after[OF idxs] by blast
  have "store (snd (run_batches fromstring generate_content strings_to_translate all_xml_snippets
                      later ?st')) ! ?r = store ?st' ! ?r"
    using run_batches_frame[OF _ apart] by (metis prod.collapse)
  then have final: "store (snd (translation_run tostring fromstring generate_content children s shown))
           ! ?r = apply_fragment fromstring (split XML_SEPARATOR resp ! k) (children ! ?r)"
    using run applied by simp
  show ?thesis
    using concat_batches[of xs] translatable_strings_eq[of children] ne nth req frag untouched
      run applied final
    unfolding refs by blast
qed


section \<open>The marker test and malformed fragments\<close>

lemma hello_payload:
  "combined_text_at (all_xml_snippets_of ET_tostring hello_table [0, 2]) 0
     = ''<string name=\"hello\">Hello</string>'' @ XML_SEPARATOR
         @ ''<string name=\"bye\">Goodbye</string>''"
  by (simp add: hello_snippets combined_text_at_def BATCH_SIZE_def)

lemma hello_payload_not_blank:
  "combined_text_at (all_xml_snippets_of ET_tostring hello_table [0, 2]) 0 \<noteq> []"
  "\<not> isspace (combined_text_at (all_xml_snippets_of ET_tostring hello_table [0, 2]) 0)"
  by (simp_all add: hello_payload isspace_def isspace_char_def)

lemma hello_fails_once:
  "translate_text_with_ai fails_once
     (combined_text_at (all_xml_snippets_of ET_tostring hello_table [0, 2]) 0) fresh_client
     = (''ERROR_UNEXPECTED: boom'', \<lparr>calls = 1, slept_sec = 0\<rparr>)"
  using hello_payload_not_blank
  by (simp add: translate_text_with_ai_def upt_retries fails_once_def fresh_client_def
      made_call_def lower_def lower_char_def)


lemma run_batches_api_failure_marked:
  "run_batches fs gen refs snips idxs st = (Some (ApiFailure a), st') \<Longrightarrow> py_in ''ERROR_'' a"
proof (induction idxs arbitrary: st)
  case Nil
  then show ?case by simp
next
  case (Cons i idxs)
  obtain resp net' where t: "translate_text_with_ai gen (combined_text_at snips i) (net st) = (resp, net')"
    by (cases "translate_text_with_ai gen (combined_text_at snips i) (net st)")
  show ?case
  proof (cases "py_in ''ERROR_'' resp")
    case True
    then show ?thesis using Cons.prems run_batches_api_failure[OF t True] by simp
  next
    case False
    show ?thesis
    proof (cases "length (split XML_SEPARATOR resp) = length (batch_tags_at refs i)")
      case True
      then show ?thesis using Cons.prems Cons.IH run_batches_applied[OF t False True] by simp
    next
      case m: False
      then show ?thesis using Cons.prems run_batches_mismatch[OF t False m] by simp
    qed
  qed
qed

text \<open>
  C10. The loop tells a failure from a translation by one test only, whether the text
  \<open>ERROR_\<close> occurs anywhere in what the client returned. So when the remote has
  answered the batch, the answer has as many fragments as the batch has records and
  every fragment parses, the run still ends at this batch with an API failure as soon
  as the answer contains \<open>ERROR_\<close>, and nothing of the answer is applied, although
  \<open>_update_tags_from_response\<close> would have accepted it. Without that text in the
  answer the batch is never reported as this API failure.
\<close>

theorem marker_in_a_translation_aborts_the_run:
  assumes adapter: "translate_text_with_ai generate_content (combined_text_at all_xml_snippets i) (net st)
                      = (resp, net')"
    and answered: "generate_content n (combined_text_at all_xml_snippets i) = Response answer"
    and stripped: "resp = strip answer"
    and count: "length (split XML_SEPARATOR resp) = length (batch_tags_at strings_to_translate i)"
    and wellformed: "\<forall>f \<in> set (split XML_SEPARATOR resp). fromstring (strip f) \<noteq> None"
  shows "(py_in ''ERROR_'' resp \<longrightarrow>
            run_batches fromstring generate_content strings_to_translate all_xml_snippets (i # rest) st
              = (Some (ApiFailure resp), st\<lparr>net := net'\<rparr>))
       \<and> (\<not> py_in ''ERROR_'' resp \<longrightarrow>
            fst (run_batches fromstring generate_content strings_to_translate all_xml_snippets
                   (i # rest) st) \<noteq> Some (ApiFailure resp))
       \<and> fst (update_tags_from_response fromstring (batch_tags_at strings_to_translate i) resp
                 (store st))"
proof -
  have one: "py_in ''ERROR_'' resp \<longrightarrow>
            run_batches fromstring generate_content strings_to_translate all_xml_snippets (i # rest) st
              = (Some (ApiFailure resp), st\<lparr>net := net'\<rparr>)"
    using run_batches_api_failure[OF adapter] by blast
  have two: "\<not> py_in ''ERROR_'' resp \<longrightarrow>
            fst (run_batches fromstring generate_content strings_to_translate all_xml_snippets
                   (i # rest) st) \<noteq> Some (ApiFailure resp)"
  proof
    assume no: "\<not> py_in ''ERROR_'' resp"
    show "fst (run_batches fromstring generate_content strings_to_translate all_xml_snippets
                   (i # rest) st) \<noteq> Some (ApiFailure resp)"
    proof
      assume "fst (run_batches fromstring generate_content strings_to_translate all_xml_snippets
                   (i # rest) st) = Some (ApiFailure resp)"
      then obtain st' where "run_batches fromstring generate_content strings_to_translate
          all_xml_snippets (i # rest) st = (Some (ApiFailure resp), st')"
        by (metis prod.collapse)
      then have "py_in ''ERROR_'' resp" by (rule run_batches_api_failure_marked)
      then show False using no by simp
    qed
  qed
  have three: "fst (update_tags_from_response fromstring (batch_tags_at strings_to_translate i) resp
                 (store st))"
    using count by (simp add: update_tags_from_response_def)
  show ?thesis using one two three by blast
qed

lemma split_marked_response:
  "split XML_SEPARATOR marked_response
     = [''<string name=\"hello\">ERROR_404</string>'', ''<string name=\"bye\">Lehitraot</string>'']"
  by (simp add: marked_response_def XML_SEPARATOR_def)

lemma strip_marked_response: "strip marked_response = marked_response"
  by (simp add: marked_response_def XML_SEPARATOR_def strip_def isspace_char_def)

lemma hello_answers:
  "translate_text_with_ai (answers response)
     (combined_text_at (all_xml_snippets_of ET_tostring hello_table [0, 2]) 0) fresh_client
     = (strip response, \<lparr>calls = 1, slept_sec = 0\<rparr>)"
  using hello_payload_not_blank
  by (simp add: translate_text_with_ai_def upt_retries answers_def fresh_client_def made_call_def)

theorem marker_in_a_translation_aborts_the_run_witness:
  "translate_text_with_ai (answers marked_response)
        (combined_text_at (all_xml_snippets_of ET_tostring hello_table [0, 2]) 0) (net hello_start)
       = (marked_response, \<lparr>calls = 1, slept_sec = 0\<rparr>)
   \<and> answers marked_response 0 (combined_text_at (all_xml_snippets_of ET_tostring hello_table [0, 2]) 0)
       = Response marked_response
   \<and> marked_response = strip marked_response
   \<and> length (split XML_SEPARATOR marked_response) = length (batch_tags_at [0, 2] 0)
   \<and> sample_fromstring (strip ''<string name=\"hello\">ERROR_404</string>'') \<noteq> None
   \<and> sample_fromstring (strip ''<string name=\"bye\">Lehitraot</string>'') \<noteq> None
   \<and> py_in ''ERROR_'' marked_response
   \<and> run_batches sample_fromstring (answers marked_response) [0, 2]
        (all_xml_snippets_of ET_tostring hello_table [0, 2]) [0] hello_start
       = (Some (ApiFailure marked_response), hello_start\<lparr>net := \<lparr>calls = 1, slept_sec = 0\<rparr>\<rparr>)
   \<and> fst (update_tags_from_response sample_fromstring (batch_tags_at [0, 2] 0) marked_response
            (store hello_start))"
proof -
  let ?snips = "all_xml_snippets_of ET_tostring hello_table [0, 2]"
  have h1: "translate_text_with_ai (answers marked_response) (combined_text_at ?snips 0)
              (net hello_start) = (marked_response, \<lparr>calls = 1, slept_sec = 0\<rparr>)"
    using hello_answers[of marked_response] by (simp add: hello_start_def strip_marked_response)
  have h2: "answers marked_response 0 (combined_text_at ?snips 0) = Response marked_response"
    by (simp add: answers_def)
  have h3: "marked_response = strip marked_response" by (simp add: strip_marked_response)
  have h4: "length (split XML_SEPARATOR marked_response) = length (batch_tags_at [0, 2] 0)"
    by (simp add: split_marked_response batch_tags_at_def BATCH_SIZE_def)
  have p1: "sample_fromstring (strip ''<string name=\"hello\">ERROR_404</string>'') \<noteq> None"
    by (simp add: sample_fromstring_def strip_def isspace_char_def)
  have p2: "sample_fromstring (strip ''<string name=\"bye\">Lehitraot</string>'') \<noteq> None"
    by (simp add: sample_fromstring_def strip_def isspace_char_def)
  have h5: "\<forall>f \<in> set (split XML_SEPARATOR marked_response). sample_fromstring (strip f) \<noteq> None"
    using p1 p2 by (simp add: split_marked_response)
  have m: "py_in ''ERROR_'' marked_response" by (simp add: marked_response_def)
  have inst: "run_batches sample_fromstring (answers marked_response) [0, 2] ?snips [0] hello_start
       = (Some (ApiFailure marked_response), hello_start\<lparr>net := \<lparr>calls = 1, slept_sec = 0\<rparr>\<rparr>)
     \<and> fst (update_tags_from_response sample_fromstring (batch_tags_at [0, 2] 0) marked_response
            (store hello_start))"
    using marker_in_a_translation_aborts_the_run[OF h1 h2 h3 h4 h5, of "[]"] m by blast
  show ?thesis using h1 h2 h3 h4 p1 p2 m inst by blast
qed

lemma el_text_apply_fragment:
  "el_text (apply_fragment fs x t)
     = (case fs (strip x) of
          Some translated_tag \<Rightarrow> el_text translated_tag
        | None \<Rightarrow> Some (''TRANSLATION_ERROR: '' @ format_text (el_text t)))"
  by (simp add: apply_fragment_def set_text_def split: option.splits)

text \<open>
  C3, as the program has it. Let \<open>_update_tags_from_response\<close> be called with distinct
  tags of the store and a response that splits into as many fragments as there are
  tags, of which fragment \<open>j\<close> does not parse and every other one does. Then the
  function returns \<open>True\<close>; the text of tag \<open>j\<close> becomes \<open>TRANSLATION_ERROR: \<close> followed
  by the text it had; and the text of every other tag of the batch becomes the text of
  its parsed fragment. The loop calls the function on what the client returned for the
  batch when that does not contain \<open>ERROR_\<close>, and on the \<open>True\<close> it goes on with the
  next start position, with the counts raised by the size of the batch.
\<close>

theorem one_malformed_fragment_marks_one_record:
  assumes dist: "distinct original_tags"
    and inside: "\<forall>r \<in> set original_tags. r < length ts"
    and count: "length (split XML_SEPARATOR resp) = length original_tags"
    and j: "j < length original_tags"
    and bad: "fromstring (strip (split XML_SEPARATOR resp ! j)) = None"
    and good: "\<forall>k < length original_tags. k \<noteq> j \<longrightarrow>
                 fromstring (strip (split XML_SEPARATOR resp ! k)) \<noteq> None"
  shows "fst (update_tags_from_response fromstring original_tags resp ts)
       \<and> el_text (snd (update_tags_from_response fromstring original_tags resp ts)
                    ! (original_tags ! j))
           = Some (''TRANSLATION_ERROR: '' @ format_text (el_text (ts ! (original_tags ! j))))
       \<and> (\<forall>k < length original_tags. k \<noteq> j \<longrightarrow>
             el_text (snd (update_tags_from_response fromstring original_tags resp ts)
                        ! (original_tags ! k))
               = el_text (the (fromstring (strip (split XML_SEPARATOR resp ! k)))))
       \<and> (translate_text_with_ai generate_content (combined_text_at all_xml_snippets i) (net st)
              = (resp, net')
            \<and> \<not> py_in ''ERROR_'' resp
            \<and> original_tags = batch_tags_at strings_to_translate i \<and> ts = store st \<longrightarrow>
            run_batches fromstring generate_content strings_to_translate all_xml_snippets (i # rest) st
              = run_batches fromstring generate_content strings_to_translate all_xml_snippets rest
                  (st\<lparr>store := snd (update_tags_from_response fromstring original_tags resp ts),
                      net := net',
                      translated_count := translated_count st + length original_tags,
                      progress_value := translated_count st + length original_tags\<rparr>))"
proof -
  let ?new = "snd (update_tags_from_response fromstring original_tags resp ts)"
  have nth: "?new ! (original_tags ! k)
               = apply_fragment fromstring (split XML_SEPARATOR resp ! k) (ts ! (original_tags ! k))"
    if "k < length original_tags" for k
    using update_tags_positional(2)[OF count dist that] inside that by simp
  have one: "fst (update_tags_from_response fromstring original_tags resp ts)"
    using count by (simp add: update_tags_from_response_def)
  have two: "el_text (?new ! (original_tags ! j))
           = Some (''TRANSLATION_ERROR: '' @ format_text (el_text (ts ! (original_tags ! j))))"
    using nth[OF j] bad by (simp add: el_text_apply_fragment)
  have three: "\<forall>k < length original_tags. k \<noteq> j \<longrightarrow>
             el_text (?new ! (original_tags ! k))
               = el_text (the (fromstring (strip (split XML_SEPARATOR resp ! k))))"
  proof (intro allI impI)
    fix k assume k: "k < length original_tags" and "k \<noteq> j"
    then obtain t where "fromstring (strip (split XML_SEPARATOR resp ! k)) = Some t"
      using good by auto
    then show "el_text (?new ! (original_tags ! k))
               = el_text (the (fromstring (strip (split XML_SEPARATOR resp ! k))))"
      using nth[OF k] by (simp add: el_text_apply_fragment)
  qed
  have four: "translate_text_with_ai generate_content (combined_text_at all_xml_snippets i) (net st)
              = (resp, net')
            \<and> \<not> py_in ''ERROR_'' resp
            \<and> original_tags = batch_tags_at strings_to_translate i \<and> ts = store st \<longrightarrow>
            run_batches fromstring generate_content strings_to_translate all_xml_snippets (i # rest) st
              = run_batches fromstring generate_content strings_to_translate all_xml_snippets rest
                  (st\<lparr>store := ?new,
                      net := net',
                      translated_count := translated_count st + length original_tags,
                      progress_value := translated_count st + length original_tags\<rparr>)"
    using run_batches_applied[of generate_content all_xml_snippets i st resp net'
        strings_to_translate fromstring rest] count
    by auto
  show ?thesis using one two three four by blast
qed

lemma split_one_bad_response:
  "split XML_SEPARATOR one_bad_response = [''<string name=\"hello\">Shalom</string>'', ''<broken'']"
  by (simp add: one_bad_response_def XML_SEPARATOR_def)

lemma strip_one_bad_response: "strip one_bad_response = one_bad_response"
  by (simp add: one_bad_response_def XML_SEPARATOR_def strip_def isspace_char_def)

theorem one_malformed_fragment_marks_one_record_witness:
  "distinct [0, 2 :: nat]
   \<and> length (split XML_SEPARATOR one_bad_response) = length [0, 2 :: nat]
   \<and> sample_fromstring (strip (split XML_SEPARATOR one_bad_response ! 1)) = None
   \<and> sample_fromstring (strip (split XML_SEPARATOR one_bad_response ! 0)) \<noteq> None
   \<and> translate_text_with_ai (answers one_bad_response)
        (combined_text_at (all_xml_snippets_of ET_tostring hello_table [0, 2]) 0) (net hello_start)
       = (one_bad_response, \<lparr>calls = 1, slept_sec = 0\<rparr>)
   \<and> \<not> py_in ''ERROR_'' one_bad_response
   \<and> fst (update_tags_from_response sample_fromstring [0, 2] one_bad_response hello_table)
   \<and> el_text (snd (update_tags_from_response sample_fromstring [0, 2] one_bad_response hello_table) ! 2)
       = Some ''TRANSLATION_ERROR: Goodbye''
   \<and> el_text (snd (update_tags_from_response sample_fromstring [0, 2] one_bad_response hello_table) ! 0)
       = Some ''Shalom''
   \<and> run_batches sample_fromstring (answers one_bad_response) [0, 2]
        (all_xml_snippets_of ET_tostring hello_table [0, 2]) [0] hello_start
       = (None,
          \<lparr>store = snd (update_tags_from_response sample_fromstring [0, 2] one_bad_response hello_table),
           net = \<lparr>calls = 1, slept_sec = 0\<rparr>, translated_count = 2, progress_value = 2\<rparr>)"
proof -
  let ?snips = "all_xml_snippets_of ET_tostring hello_table [0, 2]"
  let ?new = "snd (update_tags_from_response sample_fromstring [0, 2] one_bad_response hello_table)"
  have h1: "distinct [0, 2 :: nat]" by simp
  have h2: "\<forall>r \<in> set [0, 2 :: nat]. r < length hello_table" by (simp add: hello_table_def)
  have h3: "length (split XML_SEPARATOR one_bad_response) = length [0, 2 :: nat]"
    by (simp add: split_one_bad_response)
  have h4: "(1 :: nat) < length [0, 2 :: nat]" by simp
  have h5: "sample_fromstring (strip (split XML_SEPARATOR one_bad_response ! 1)) = None"
    by (simp add: split_one_bad_response sample_fromstring_def strip_def isspace_char_def)
  have p0: "sample_fromstring (strip (split XML_SEPARATOR one_bad_response ! 0))
              = Some (Element ''string'' [(''name'', ''hello'')] (Some ''Shalom'') [] None)"
    by (simp add: split_one_bad_response sample_fromstring_def strip_def isspace_char_def)
  have h6: "\<forall>k < length [0, 2 :: nat]. k \<noteq> 1 \<longrightarrow>
              sample_fromstring (strip (split XML_SEPARATOR one_bad_response ! k)) \<noteq> None"
    using p0 by (auto simp: less_Suc_eq)
  have a: "translate_text_with_ai (answers one_bad_response) (combined_text_at ?snips 0)
              (net hello_start) = (one_bad_response, \<lparr>calls = 1, slept_sec = 0\<rparr>)"
    using hello_answers[of one_bad_response] by (simp add: hello_start_def strip_one_bad_response)
  have n: "\<not> py_in ''ERROR_'' one_bad_response"
    by (simp add: one_bad_response_def XML_SEPARATOR_def)
  have b: "[0, 2] = batch_tags_at [0, 2] 0" by (simp add: batch_tags_at_def BATCH_SIZE_def)
  have s: "hello_table = store hello_start" by (simp add: hello_start_def)
  note inst = one_malformed_fragment_marks_one_record[OF h1 h2 h3 h4 h5 h6, of "answers one_bad_response" ?snips 0 hello_start
      "\<lparr>calls = 1, slept_sec = 0\<rparr>" "[0, 2]" "[]"]
  have r1: "fst (update_tags_from_response sample_fromstring [0, 2] one_bad_response hello_table)"
    using inst by blast
  have "el_text (?new ! ([0, 2] ! 1))
          = Some (''TRANSLATION_ERROR: '' @ format_text (el_text (hello_table ! ([0, 2] ! 1))))"
    using inst by blast
  then have r2: "el_text (?new ! 2) = Some ''TRANSLATION_ERROR: Goodbye''"
    by (simp add: hello_table_def format_text_def)
  have "\<forall>k < length [0, 2 :: nat]. k \<noteq> 1 \<longrightarrow> el_text (?new ! ([0, 2] ! k))
          = el_text (the (sample_fromstring (strip (split XML_SEPARATOR one_bad_response ! k))))"
    using inst by blast
  then have "el_text (?new ! ([0, 2] ! 0))
          = el_text (the (sample_fromstring (strip (split XML_SEPARATOR one_bad_response ! 0))))"
    by (metis h4 less_trans zero_less_one zero_neq_one)
  then have r3: "el_text (?new ! 0) = Some ''Shalom''" using p0 by simp
  have "run_batches sample_fromstring (answers one_bad_response) [0, 2] ?snips [0] hello_start
       = run_batches sample_fromstring (answers one_bad_response) [0, 2] ?snips []
           (hello_start\<lparr>store := ?new, net := \<lparr>calls = 1, slept_sec = 0\<rparr>,
              translated_count := translated_count hello_start + length [0, 2 :: nat],
              progress_value := translated_count hello_start + length [0, 2 :: nat]\<rparr>)"
    using inst a n b s by blast
  then have r4: "run_batches sample_fromstring (answers one_bad_response) [0, 2] ?snips [0] hello_start
       = (None, \<lparr>store = ?new, net = \<lparr>calls = 1, slept_sec = 0\<rparr>, translated_count = 2,
                 progress_value = 2\<rparr>)"
    by (simp add: hello_start_def)
  show ?thesis using h1 h3 h5 p0 a n r1 r2 r3 r4 by simp
qed

lemma split_marked_bad_response:
  "split XML_SEPARATOR marked_bad_response = [''<string name=\"hello\">ERROR_404</string>'', ''<broken'']"
  by (simp add: marked_bad_response_def XML_SEPARATOR_def)

lemma strip_marked_bad_response: "strip marked_bad_response = marked_bad_response"
  by (simp add: marked_bad_response_def XML_SEPARATOR_def strip_def isspace_char_def)

text \<open>
  C3, as the claim words it, fails. The response to the batch of \<open>hello_table\<close> has two
  fragments for two records, the first well formed and the second cut short, and its
  first fragment holds the text \<open>ERROR_404\<close>: the run ends at this batch with an API
  failure, no record is marked and none is translated.
\<close>

theorem marker_beside_a_malformed_fragment_counterexample:
  "length (split XML_SEPARATOR marked_bad_response) = length (batch_tags_at [0, 2] 0)
   \<and> sample_fromstring (strip (split XML_SEPARATOR marked_bad_response ! 0)) \<noteq> None
   \<and> sample_fromstring (strip (split XML_SEPARATOR marked_bad_response ! 1)) = None
   \<and> translation_run ET_tostring sample_fromstring (answers marked_bad_response) hello_table
        fresh_client 0
       = (Some (ApiFailure marked_bad_response), hello_start\<lparr>net := \<lparr>calls = 1, slept_sec = 0\<rparr>\<rparr>)
   \<and> store (hello_start\<lparr>net := \<lparr>calls = 1, slept_sec = 0\<rparr>\<rparr>) = hello_table"
proof -
  let ?snips = "all_xml_snippets_of ET_tostring hello_table [0, 2]"
  have c: "length (split XML_SEPARATOR marked_bad_response) = length (batch_tags_at [0, 2] 0)"
    by (simp add: split_marked_bad_response batch_tags_at_def BATCH_SIZE_def)
  have p0: "sample_fromstring (strip (split XML_SEPARATOR marked_bad_response ! 0)) \<noteq> None"
    by (simp add: split_marked_bad_response sample_fromstring_def strip_def isspace_char_def)
  have p1: "sample_fromstring (strip (split XML_SEPARATOR marked_bad_response ! 1)) = None"
    by (simp add: split_marked_bad_response sample_fromstring_def strip_def isspace_char_def)
  have r: "py_range 0 (length [0, 2 :: nat]) BATCH_SIZE = [0]"
    by (rule py_range_one_batch) (simp_all add: BATCH_SIZE_def)
  have a: "translate_text_with_ai (answers marked_bad_response) (combined_text_at ?snips 0)
             (net hello_start) = (marked_bad_response, \<lparr>calls = 1, slept_sec = 0\<rparr>)"
    using hello_answers[of marked_bad_response]
    by (simp add: hello_start_def strip_marked_bad_response)
  have m: "py_in ''ERROR_'' marked_bad_response" by (simp add: marked_bad_response_def)
  have run: "translation_run ET_tostring sample_fromstring (answers marked_bad_response) hello_table
        fresh_client 0
       = (Some (ApiFailure marked_bad_response), hello_start\<lparr>net := \<lparr>calls = 1, slept_sec = 0\<rparr>\<rparr>)"
    unfolding translation_run_def Let_def hello_translatable r hello_start_def[symmetric]
    by (rule run_batches_api_failure[OF a m])
  have s: "store (hello_start\<lparr>net := \<lparr>calls = 1, slept_sec = 0\<rparr>\<rparr>) = hello_table"
    by (simp add: hello_start_def)
  show ?thesis using c p0 p1 run s by blast
qed

section \<open>What a run changes\<close>

lemma translation_run_frame:
  assumes "translation_run tostring fromstring gen children s shown = (outcome, st')"
    and "r \<notin> set (get_translatable_strings children)"
  shows "store st' ! r = children ! r"
proof -
  let ?refs = "get_translatable_strings children"
  have "\<forall>j \<in> set (py_range 0 (length ?refs) BATCH_SIZE). r \<notin> set (batch_tags_at ?refs j)"
    using assms(2) batch_subset[of ?refs] by blast
  then show ?thesis
    using run_batches_frame[of fromstring gen ?refs _ "py_range 0 (length ?refs) BATCH_SIZE"
        "\<lparr>store = children, net = s, translated_count = 0, progress_value = shown\<rparr>" outcome st' r]
      assms(1)
    by (simp add: translation_run_def Let_def)
qed



lemma split_good_response:
  "split XML_SEPARATOR good_response
     = [''<string name=\"hello\">Shalom</string>'', ''<string name=\"bye\">Lehitraot</string>'']"
  by (simp add: good_response_def XML_SEPARATOR_def)

lemma strip_good_response: "strip good_response = good_response"
  by (simp add: good_response_def XML_SEPARATOR_def strip_def isspace_char_def)

lemma hello_updated:
  "update_tags_from_response sample_fromstring [0, 2] good_response hello_table
     = (True,
        [Element ''string'' [(''name'', ''hello'')] (Some ''Shalom'') [] (Some ''\<newline>    ''),
         Element ''string'' [(''name'', ''fmt'')] (Some ''%1$s'') [] (Some ''\<newline>    ''),
         Element ''string'' [(''name'', ''bye'')] (Some ''Lehitraot'') [] (Some ''\<newline>'')])"
  by (simp add: update_tags_from_response_def split_good_response apply_fragment_def
      sample_fromstring_def strip_def isspace_char_def set_text_def hello_table_def)

lemma hello_run:
  "translation_run ET_tostring sample_fromstring (answers good_response) hello_table fresh_client 0
     = (None, hello_done)"
proof -
  let ?snips = "all_xml_snippets_of ET_tostring hello_table [0, 2]"
  have r: "py_range 0 (length [0, 2 :: nat]) BATCH_SIZE = [0]"
    by (rule py_range_one_batch) (simp_all add: BATCH_SIZE_def)
  have a: "translate_text_with_ai (answers good_response) (combined_text_at ?snips 0)
             (net hello_start) = (good_response, \<lparr>calls = 1, slept_sec = 0\<rparr>)"
    using hello_answers[of good_response] by (simp add: hello_start_def strip_good_response)
  have n: "\<not> py_in ''ERROR_'' good_response"
    by (simp add: good_response_def XML_SEPARATOR_def)
  have c: "length (split XML_SEPARATOR good_response) = length (batch_tags_at [0, 2] 0)"
    by (simp add: split_good_response batch_tags_at_def BATCH_SIZE_def)
  have b: "batch_tags_at [0, 2] 0 = [0, 2]" by (simp add: batch_tags_at_def BATCH_SIZE_def)
  have run: "run_batches sample_fromstring (answers good_response) [0, 2] ?snips [0] hello_start
          = (None,
             \<lparr>store =
                [Element ''string'' [(''name'', ''hello'')] (Some ''Shalom'') [] (Some ''\<newline>    ''),
                 Element ''string'' [(''name'', ''fmt'')] (Some ''%1$s'') [] (Some ''\<newline>    ''),
                 Element ''string'' [(''name'', ''bye'')] (Some ''Lehitraot'') [] (Some ''\<newline>'')],
              net = \<lparr>calls = 1, slept_sec = 0\<rparr>, translated_count = 2, progress_value = 2\<rparr>)"
    unfolding run_batches_applied[OF a n c] by (simp add: b hello_start_def hello_updated)
  show ?thesis
    unfolding translation_run_def Let_def hello_translatable r hello_start_def[symmetric]
      hello_done_def
    by (rule run)
qed




lemma progress_maximum_update_ui [simp]:
  "progress_maximum (update_ui_for_state a) = progress_maximum a"
  by (simp add: update_ui_eq)

lemma worker_translate_progress_maximum:
  assumes "xml_root a = Some root" and "get_translatable_strings (el_children root) \<noteq> []"
  shows "progress_maximum (worker_translate tostring fromstring gen a)
           = length (get_translatable_strings (el_children root))"
  using assms
  by (simp add: worker_translate_def Let_def set_state_eq split: prod.splits option.splits)

text \<open>
  C6, as the program has it. A child of the root whose text is missing or empty, or
  holds a percent sign together with a letter s or a letter d (as \<open>%1$s\<close> does), is
  not among the translatable strings: it is in no batch, the snippets that make up the
  batch texts are those of the translatable strings and of no other element, the run
  leaves the element as it is, and the maximum of the progress bar is the number of
  translatable strings. The program keeps no status of a record, so nothing is marked.
\<close>

theorem untranslatable_records_are_left_out:
  assumes i: "i < length children"
    and skip: "el_text (children ! i) = None \<or> el_text (children ! i) = Some []
               \<or> (\<exists>t. el_text (children ! i) = Some t
                        \<and> py_in ''%'' t \<and> (py_in ''s'' t \<or> py_in ''d'' t))"
    and run: "translation_run tostring fromstring generate_content children s shown = (outcome, st')"
  shows "i \<notin> set (get_translatable_strings children)
       \<and> (\<forall>j. i \<notin> set (batch_tags_at (get_translatable_strings children) j))
       \<and> all_xml_snippets_of tostring children (get_translatable_strings children)
           = map (\<lambda>t. strip (tostring t))
               (filter (\<lambda>t. el_tag t = ''string'' \<and> translatable t) children)
       \<and> store st' ! i = children ! i
       \<and> (xml_root a = Some root \<and> el_children root = children
            \<and> get_translatable_strings children \<noteq> [] \<longrightarrow>
            progress_maximum (worker_translate tostring fromstring generate_content a)
              = length (filter (\<lambda>t. el_tag t = ''string'' \<and> translatable t) children))"
proof -
  let ?refs = "get_translatable_strings children"
  have "\<not> translatable (children ! i)" using skip by (auto simp: translatable_def)
  then have one: "i \<notin> set ?refs" by (simp add: translatable_strings_set)
  then have two: "\<forall>j. i \<notin> set (batch_tags_at ?refs j)" using batch_subset[of ?refs] by blast
  have "all_xml_snippets_of tostring children ?refs
          = map (\<lambda>t. strip (tostring t)) (map ((!) children) ?refs)"
    by (simp add: all_xml_snippets_of_def comp_def)
  then have three: "all_xml_snippets_of tostring children ?refs
           = map (\<lambda>t. strip (tostring t))
               (filter (\<lambda>t. el_tag t = ''string'' \<and> translatable t) children)"
    by (simp only: translatable_strings_eq)
  have four: "store st' ! i = children ! i" using run one by (rule translation_run_frame)
  have "length ?refs = length (filter (\<lambda>t. el_tag t = ''string'' \<and> translatable t) children)"
    using translatable_strings_eq[of children] by (metis length_map)
  then have five: "xml_root a = Some root \<and> el_children root = children \<and> ?refs \<noteq> [] \<longrightarrow>
            progress_maximum (worker_translate tostring fromstring generate_content a)
              = length (filter (\<lambda>t. el_tag t = ''string'' \<and> translatable t) children)"
    using worker_translate_progress_maximum[of a root tostring fromstring generate_content] by auto
  show ?thesis using one two three four five by blast
qed

text \<open>
  C6, as the claim words it, fails twice: a string of two spaces and a string that is
  the placeholder \<open>%.2f\<close> are both translatable for the program, and both are
  serialized into the batch text.
\<close>

theorem blank_and_float_placeholder_counterexample:
  "el_text (blank_table ! 0) = Some ''  ''
   \<and> isspace ''  ''
   \<and> el_text (blank_table ! 1) = Some ''%.2f''
   \<and> get_translatable_strings blank_table = [0, 1]
   \<and> combined_text_at (all_xml_snippets_of ET_tostring blank_table [0, 1]) 0
       = ''<string name=\"gap\">  </string>'' @ XML_SEPARATOR
           @ ''<string name=\"price\">%.2f</string>''"
  by (simp add: blank_table_def get_translatable_strings_def translatable_def upt_rec isspace_def
      isspace_char_def combined_text_at_def all_xml_snippets_of_def write_attrib_def strip_def
      BATCH_SIZE_def)


theorem untranslatable_records_are_left_out_witness:
  "(1 :: nat) < length hello_table
   \<and> el_text (hello_table ! 1) = Some ''%1$s''
   \<and> py_in ''%'' ''%1$s'' \<and> py_in ''s'' ''%1$s''
   \<and> translation_run ET_tostring sample_fromstring (answers good_response) hello_table fresh_client 0
       = (None, hello_done)
   \<and> 1 \<notin> set (get_translatable_strings hello_table)
   \<and> 1 \<notin> set (batch_tags_at (get_translatable_strings hello_table) 0)
   \<and> all_xml_snippets_of ET_tostring hello_table (get_translatable_strings hello_table)
       = [''<string name=\"hello\">Hello</string>'', ''<string name=\"bye\">Goodbye</string>'']
   \<and> store hello_done ! 1 = hello_table ! 1
   \<and> xml_root extracted_app = Some (resources hello_table)
   \<and> progress_maximum
        (worker_translate ET_tostring sample_fromstring (answers good_response) extracted_app) = 2"
proof -
  have h1: "(1 :: nat) < length hello_table" by (simp add: hello_table_def)
  have t: "el_text (hello_table ! 1) = Some ''%1$s''" by (simp add: hello_table_def)
  have p: "py_in ''%'' ''%1$s''" "py_in ''s'' ''%1$s''" by simp_all
  have h2: "el_text (hello_table ! 1) = None \<or> el_text (hello_table ! 1) = Some []
             \<or> (\<exists>t. el_text (hello_table ! 1) = Some t
                      \<and> py_in ''%'' t \<and> (py_in ''s'' t \<or> py_in ''d'' t))"
    using t p by blast
  have x: "xml_root extracted_app = Some (resources hello_table)"
    by (simp add: extracted_app_fields)
  have c: "el_children (resources hello_table) = hello_table" by (simp add: resources_def)
  have ne: "get_translatable_strings hello_table \<noteq> []" by (simp add: hello_translatable)
  have two: "length (filter (\<lambda>t. el_tag t = ''string'' \<and> translatable t) hello_table) = 2"
    by (simp add: hello_table_def translatable_def)
  note inst = untranslatable_records_are_left_out[OF h1 h2 hello_run, of extracted_app "resources hello_table"]
  have r1: "1 \<notin> set (get_translatable_strings hello_table)" using inst by blast
  have r2: "1 \<notin> set (batch_tags_at (get_translatable_strings hello_table) 0)" using inst by blast
  have r3: "all_xml_snippets_of ET_tostring hello_table (get_translatable_strings hello_table)
       = [''<string name=\"hello\">Hello</string>'', ''<string name=\"bye\">Goodbye</string>'']"
    by (simp add: hello_translatable hello_snippets)
  have r4: "store hello_done ! 1 = hello_table ! 1" using inst by blast
  have "progress_maximum
        (worker_translate ET_tostring sample_fromstring (answers good_response) extracted_app)
          = length (filter (\<lambda>t. el_tag t = ''string'' \<and> translatable t) hello_table)"
    using inst x c ne by blast
  then have r5: "progress_maximum
        (worker_translate ET_tostring sample_fromstring (answers good_response) extracted_app) = 2"
    using two by simp
  show ?thesis using h1 t p hello_run r1 r2 r3 r4 x r5 by blast
qed

section \<open>Failed stages\<close>

lemma current_state_update_ui [simp]:
  "current_state (update_ui_for_state a) = current_state a"
  by (simp add: update_ui_eq)

lemma py_range_empty: "py_range 0 0 n = []"
  by (simp add: py_range.simps[of 0 0 n])

lemma translation_run_nothing:
  "get_translatable_strings children = [] \<Longrightarrow>
     fst (translation_run tostring fromstring gen children s shown) = None"
  by (simp add: translation_run_def py_range_empty)

lemma worker_translate_failed:
  assumes "xml_root a = Some root"
    and "fst (translation_run tostring fromstring gen (el_children root) (client a)
                (progress_bar_value a)) \<noteq> None"
  shows "current_state (worker_translate tostring fromstring gen a) = current_state a"
    and "widgets (worker_translate tostring fromstring gen a) = widgets (update_ui_for_state a)"
proof -
  have ne: "get_translatable_strings (el_children root) \<noteq> []"
    using assms(2) translation_run_nothing[of "el_children root" tostring fromstring gen
        "client a" "progress_bar_value a"]
    by auto
  obtain failure st where run: "translation_run tostring fromstring gen (el_children root) (client a)
                (progress_bar_value a) = (Some failure, st)"
    using assms(2) by (metis fst_conv not_None_eq prod.collapse)
  have w: "worker_translate tostring fromstring gen a
             = update_ui_for_state (a\<lparr>xml_root := Some (set_children (store st) root),
                                       client := net st,
                                       progress_maximum := length (get_translatable_strings (el_children root)),
                                       progress_bar_value := progress_value st\<rparr>)"
    using assms(1) ne run by (simp add: worker_translate_def Let_def)
  show "current_state (worker_translate tostring fromstring gen a) = current_state a"
    unfolding w by simp
  show "widgets (worker_translate tostring fromstring gen a) = widgets (update_ui_for_state a)"
    unfolding w by (auto simp: update_ui_eq fun_eq_iff split: option.splits)
qed

text \<open>
  C8. A stage that fails leaves the workflow state where it was. Stage 1 when the work
  directory cannot be prepared or the copy fails; stages 2 and 6 when the tool does not
  exit with code 0 or cannot be started; stage 3 when \<open>strings.xml\<close> is missing or does
  not parse; stage 4 when the run ends with a failure, which is a terminal failure of
  the client or a cardinality mismatch; stage 5 when the file cannot be written; stage
  7 when the keystore is missing or the signer fails. After a failed translation the
  buttons are again what \<open>_update_ui_for_state\<close> gives for the unchanged state, so the
  stage can be started once more; a failed save or sign changes nothing at all. (A
  fragment that does not parse is no failure of stage 4: the record is marked and the
  run goes on.)
\<close>

theorem failed_stage_keeps_the_state:
  "(outcome \<noteq> Copied \<longrightarrow>
      current_state (run_step1_select_apk source_apk_path target outcome a) = current_state a)
   \<and> (\<not> run_command r \<longrightarrow>
        current_state (run_step2_decompile dir r a) = current_state a)
   \<and> (\<not> path_exists \<or> parsed = None \<longrightarrow>
        current_state (run_step3_extract_strings isdir path path_exists parsed a) = current_state a)
   \<and> (xml_root a = Some root
        \<and> fst (translation_run tostring fromstring generate_content (el_children root) (client a)
                  (progress_bar_value a)) \<noteq> None \<longrightarrow>
        current_state (run_step4_translate credentials_ok tostring fromstring generate_content a)
          = current_state a
        \<and> (credentials_ok \<longrightarrow>
             widgets (run_step4_translate credentials_ok tostring fromstring generate_content a)
               = widgets (update_ui_for_state a)))
   \<and> (\<not> write_ok \<longrightarrow> run_step5_save_translated hebrew_path edited_content write_ok a = a)
   \<and> (\<not> run_command r \<longrightarrow>
        current_state (run_step6_recompile unsigned_path r a) = current_state a)
   \<and> (\<not> keystore_exists \<or> \<not> run_command r \<longrightarrow>
        run_step7_sign unsigned_exists keystore_exists r a = a)"
proof -
  have one: "outcome \<noteq> Copied \<longrightarrow>
      current_state (run_step1_select_apk source_apk_path target outcome a) = current_state a"
    by (cases outcome) (simp_all add: run_step1_select_apk_def)
  have two: "\<not> run_command r \<longrightarrow> current_state (run_step2_decompile dir r a) = current_state a"
    by (simp add: run_step2_decompile_def worker_decompile_def)
  have three: "\<not> path_exists \<or> parsed = None \<longrightarrow>
        current_state (run_step3_extract_strings isdir path path_exists parsed a) = current_state a"
    by (auto simp: run_step3_extract_strings_def worker_extract_strings_def Let_def)
  have four: "xml_root a = Some root
        \<and> fst (translation_run tostring fromstring generate_content (el_children root) (client a)
                  (progress_bar_value a)) \<noteq> None \<longrightarrow>
        current_state (run_step4_translate credentials_ok tostring fromstring generate_content a)
          = current_state a
        \<and> (credentials_ok \<longrightarrow>
             widgets (run_step4_translate credentials_ok tostring fromstring generate_content a)
               = widgets (update_ui_for_state a))"
  proof
    assume h: "xml_root a = Some root
        \<and> fst (translation_run tostring fromstring generate_content (el_children root) (client a)
                  (progress_bar_value a)) \<noteq> None"
    let ?a = "a\<lparr>widgets := (widgets a)(step4a_btn := DISABLED)\<rparr>"
    have x: "xml_root ?a = Some root" using h by simp
    have f: "fst (translation_run tostring fromstring generate_content (el_children root) (client ?a)
                  (progress_bar_value ?a)) \<noteq> None"
      using h by simp
    have "widgets (update_ui_for_state ?a) = widgets (update_ui_for_state a)"
      by (auto simp: update_ui_eq fun_eq_iff buttons_def split: option.splits)
    then show "current_state (run_step4_translate credentials_ok tostring fromstring generate_content a)
          = current_state a
        \<and> (credentials_ok \<longrightarrow>
             widgets (run_step4_translate credentials_ok tostring fromstring generate_content a)
               = widgets (update_ui_for_state a))"
      using worker_translate_failed[OF x f] h by (simp add: run_step4_translate_def)
  qed
  have five: "\<not> write_ok \<longrightarrow> run_step5_save_translated hebrew_path edited_content write_ok a = a"
    by (simp add: run_step5_save_translated_def worker_save_translated_def)
  have six: "\<not> run_command r \<longrightarrow>
        current_state (run_step6_recompile unsigned_path r a) = current_state a"
    by (simp add: run_step6_recompile_def worker_recompile_def)
  have seven: "\<not> keystore_exists \<or> \<not> run_command r \<longrightarrow>
        run_step7_sign unsigned_exists keystore_exists r a = a"
    by (auto simp: run_step7_sign_def worker_sign_def)
  show ?thesis using one two three four five six seven by blast
qed


lemma hello_failed_run:
  "translation_run ET_tostring sample_fromstring fails_once hello_table fresh_client 0
     = (Some (ApiFailure ''ERROR_UNEXPECTED: boom''),
        hello_start\<lparr>net := \<lparr>calls = 1, slept_sec = 0\<rparr>\<rparr>)"
proof -
  let ?snips = "all_xml_snippets_of ET_tostring hello_table [0, 2]"
  have r: "py_range 0 (length [0, 2 :: nat]) BATCH_SIZE = [0]"
    by (rule py_range_one_batch) (simp_all add: BATCH_SIZE_def)
  have a: "translate_text_with_ai fails_once (combined_text_at ?snips 0) (net hello_start)
             = (''ERROR_UNEXPECTED: boom'', \<lparr>calls = 1, slept_sec = 0\<rparr>)"
    using hello_fails_once by (simp add: hello_start_def)
  have m: "py_in ''ERROR_'' ''ERROR_UNEXPECTED: boom''" by simp
  show ?thesis
    unfolding translation_run_def Let_def hello_translatable r hello_start_def[symmetric]
    by (rule run_batches_api_failure[OF a m])
qed

theorem failed_stage_keeps_the_state_witness:
  "CopyFailed \<noteq> Copied
   \<and> \<not> run_command (Exited 1)
   \<and> xml_root extracted_app = Some (resources hello_table)
   \<and> fst (translation_run ET_tostring sample_fromstring fails_once
             (el_children (resources hello_table)) (client extracted_app)
             (progress_bar_value extracted_app)) = Some (ApiFailure ''ERROR_UNEXPECTED: boom'')
   \<and> current_state extracted_app = Some STRINGS_EXTRACTED
   \<and> current_state (run_step1_select_apk ''b.apk'' ''work/b.apk'' CopyFailed extracted_app)
       = Some STRINGS_EXTRACTED
   \<and> current_state (run_step2_decompile ''work/app'' (Exited 1) extracted_app)
       = Some STRINGS_EXTRACTED
   \<and> current_state (run_step3_extract_strings True ''work/app/res/values/strings.xml'' True None
                       extracted_app) = Some STRINGS_EXTRACTED
   \<and> current_state (run_step4_translate True ET_tostring sample_fromstring fails_once extracted_app)
       = Some STRINGS_EXTRACTED
   \<and> widgets (run_step4_translate True ET_tostring sample_fromstring fails_once extracted_app)
        step4a_btn = NORMAL
   \<and> run_step5_save_translated ''work/app/res/values-he-rIL/strings.xml'' ''<resources />'' False
        extracted_app = extracted_app
   \<and> current_state (run_step6_recompile ''work/app_unsigned.apk'' (Exited 1) extracted_app)
       = Some STRINGS_EXTRACTED
   \<and> run_step7_sign True False (Exited 1) extracted_app = extracted_app"
proof -
  have h1: "CopyFailed \<noteq> Copied" by simp
  have h2: "\<not> run_command (Exited 1)" by (simp add: run_command_def)
  have x: "xml_root extracted_app = Some (resources hello_table)"
    by (simp add: extracted_app_fields)
  have f: "fst (translation_run ET_tostring sample_fromstring fails_once
             (el_children (resources hello_table)) (client extracted_app)
             (progress_bar_value extracted_app)) = Some (ApiFailure ''ERROR_UNEXPECTED: boom'')"
    by (simp add: resources_def extracted_app_fields hello_failed_run)
  have s: "current_state extracted_app = Some STRINGS_EXTRACTED"
    by (simp add: extracted_app_fields)
  have g: "widgets (update_ui_for_state extracted_app) step4a_btn = NORMAL"
    by (simp add: update_ui_eq extracted_app_fields)
  note inst = failed_stage_keeps_the_state[where a = extracted_app and outcome = CopyFailed and r = "Exited 1"
      and path_exists = True and parsed = None and root = "resources hello_table"
      and tostring = ET_tostring and fromstring = sample_fromstring
      and generate_content = fails_once and credentials_ok = True and write_ok = False
      and keystore_exists = False and source_apk_path = "''b.apk''" and target = "''work/b.apk''"
      and dir = "''work/app''" and isdir = True and path = "''work/app/res/values/strings.xml''"
      and hebrew_path = "''work/app/res/values-he-rIL/strings.xml''"
      and edited_content = "''<resources />''" and unsigned_path = "''work/app_unsigned.apk''"
      and unsigned_exists = True]
  have r1: "current_state (run_step1_select_apk ''b.apk'' ''work/b.apk'' CopyFailed extracted_app)
       = Some STRINGS_EXTRACTED"
    using inst h1 s by simp
  have r2: "current_state (run_step2_decompile ''work/app'' (Exited 1) extracted_app)
       = Some STRINGS_EXTRACTED"
    using inst h2 s by simp
  have r3: "current_state (run_step3_extract_strings True ''work/app/res/values/strings.xml'' True None
                       extracted_app) = Some STRINGS_EXTRACTED"
    using inst s by simp
  have r4: "current_state (run_step4_translate True ET_tostring sample_fromstring fails_once
                             extracted_app) = Some STRINGS_EXTRACTED
            \<and> widgets (run_step4_translate True ET_tostring sample_fromstring fails_once
                             extracted_app) step4a_btn = NORMAL"
    using inst x f s g by simp
  have r5: "run_step5_save_translated ''work/app/res/values-he-rIL/strings.xml'' ''<resources />''
              False extracted_app = extracted_app"
    using inst by simp
  have r6: "current_state (run_step6_recompile ''work/app_unsigned.apk'' (Exited 1) extracted_app)
       = Some STRINGS_EXTRACTED"
    using inst h2 s by simp
  have r7: "run_step7_sign True False (Exited 1) extracted_app = extracted_app"
    using inst by simp
  show ?thesis using h1 h2 x f s r1 r2 r3 r4 r5 r6 r7 by blast
qed

section \<open>A run of two batches\<close>

lemma py_in_set: "py_in sub s \<Longrightarrow> set sub \<subseteq> set s"
  by (auto simp: py_in_iff)

lemma set_join: "set (join sep fs) \<subseteq> set sep \<union> \<Union> (set ` set fs)"
  by (induction sep fs rule: join.induct) auto

lemma long_translatable: "get_translatable_strings long_table = [0..<101]"
proof -
  have "\<forall>i \<in> set [0..<101]. el_tag (long_table ! i) = ''string'' \<and> translatable (long_table ! i)"
    by (simp add: long_table_def hi_tag_def translatable_def)
  then have "filter (\<lambda>i. el_tag (long_table ! i) = ''string'' \<and> translatable (long_table ! i)) [0..<101]
               = [0..<101]"
    by (simp only: filter_True)
  moreover have "length long_table = 101" by (simp add: long_table_def)
  ultimately show ?thesis by (simp add: get_translatable_strings_def)
qed

lemma long_range: "py_range 0 (length [0..<101]) BATCH_SIZE = [0] @ 100 # []"
  by (simp add: BATCH_SIZE_def py_range.simps[of 0 101 100] py_range.simps[of 100 101 100]
      py_range.simps[of 200 101 100])

lemma hi_snippet: "strip (ET_tostring hi_tag) = ''<string name=\"hi\">Hi</string>''"
  by (simp add: hi_tag_def write_attrib_def strip_def isspace_char_def)

lemma long_snippets:
  "all_xml_snippets_of ET_tostring long_table [0..<101]
     = replicate 101 ''<string name=\"hi\">Hi</string>''"
proof -
  have "map (\<lambda>tag. strip (ET_tostring (long_table ! tag))) [0..<101]
          = map (\<lambda>tag. ''<string name=\"hi\">Hi</string>'') [0..<101]"
    by (rule map_cong) (simp_all add: long_table_def hi_snippet)
  then show ?thesis by (simp add: all_xml_snippets_of_def map_replicate_const)
qed

lemma long_first_payload:
  "combined_text_at (all_xml_snippets_of ET_tostring long_table [0..<101]) 0
     = join XML_SEPARATOR (replicate 100 ''<string name=\"hi\">Hi</string>'')"
  by (simp add: long_snippets combined_text_at_def BATCH_SIZE_def)

lemma long_second_payload:
  "combined_text_at (all_xml_snippets_of ET_tostring long_table [0..<101]) 100
     = ''<string name=\"hi\">Hi</string>''"
  by (simp add: long_snippets combined_text_at_def BATCH_SIZE_def)

lemma join_replicate_ends:
  assumes "0 < n" and "c \<noteq> []"
  shows "join sep (replicate n c) \<noteq> []"
    and "hd (join sep (replicate n c)) = hd c"
    and "last (join sep (replicate n c)) = last c"
proof -
  obtain m where n: "n = Suc m" using assms(1) by (cases n) auto
  show "join sep (replicate n c) \<noteq> []" unfolding n using assms(2) by (simp add: join_nonempty)
  show "hd (join sep (replicate n c)) = hd c" unfolding n using assms(2) by (simp add: hd_join)
  have "last (replicate n c) = c" using assms(1) by (simp add: n)
  moreover have "replicate n c \<noteq> []" using assms(1) by simp
  ultimately show "last (join sep (replicate n c)) = last c"
    using last_join[of "replicate n c" sep] assms(2) by simp
qed

lemma strip_hundred_fragments: "strip hundred_fragments = hundred_fragments"
  unfolding hundred_fragments_def
  by (rule strip_id) (simp_all add: join_replicate_ends isspace_char_def)

lemma split_hundred_fragments:
  "split XML_SEPARATOR hundred_fragments = replicate 100 ''<string name=\"hi\">Shalom</string>''"
  unfolding hundred_fragments_def
  by (rule split_join) (simp_all add: XML_SEPARATOR_def)

lemma hundred_fragments_unmarked: "\<not> py_in ''ERROR_'' hundred_fragments"
proof
  assume "py_in ''ERROR_'' hundred_fragments"
  then have "CHR ''E'' \<in> set hundred_fragments" using py_in_set by fastforce
  moreover have "set hundred_fragments
      \<subseteq> set XML_SEPARATOR \<union> \<Union> (set ` set (replicate 100 ''<string name=\"hi\">Shalom</string>''))"
    unfolding hundred_fragments_def by (rule set_join)
  ultimately show False by (auto simp: XML_SEPARATOR_def)
qed

lemma long_first_call:
  "translate_text_with_ai answers_once
     (combined_text_at (all_xml_snippets_of ET_tostring long_table [0..<101]) 0) (net long_start)
     = (hundred_fragments, \<lparr>calls = 1, slept_sec = 0\<rparr>)"
proof -
  let ?p = "combined_text_at (all_xml_snippets_of ET_tostring long_table [0..<101]) 0"
  have ne: "?p \<noteq> []" by (simp add: long_first_payload join_replicate_ends)
  have "hd ?p = CHR ''<''" by (simp add: long_first_payload join_replicate_ends)
  then have ns: "\<not> isspace ?p" using isspace_hd[of ?p] by (auto simp: isspace_char_def)
  have "answers_once (calls (net long_start)) ?p = Response hundred_fragments"
    by (simp add: answers_once_def long_start_def fresh_client_def)
  then show ?thesis
    using translate_response[OF ne ns]
    by (simp add: strip_hundred_fragments long_start_def fresh_client_def made_call_def)
qed

lemma long_first_batch:
  "run_batches sample_fromstring answers_once [0..<101]
     (all_xml_snippets_of ET_tostring long_table [0..<101]) [0] long_start
     = (None, long_after_first)"
proof -
  have c: "length (split XML_SEPARATOR hundred_fragments) = length (batch_tags_at [0..<101] 0)"
    by (simp add: split_hundred_fragments batch_tags_at_def BATCH_SIZE_def)
  show ?thesis
    unfolding run_batches_applied[OF long_first_call hundred_fragments_unmarked c]
    by (simp add: long_after_first_def long_start_def batch_tags_at_def BATCH_SIZE_def)
qed

lemma long_second_call:
  "translate_text_with_ai answers_once
     (combined_text_at (all_xml_snippets_of ET_tostring long_table [0..<101]) 100)
     (net long_after_first)
     = (''ERROR_TIMEOUT: timed out'', \<lparr>calls = 4, slept_sec = 120\<rparr>)"
  unfolding translate_text_with_ai_def upt_retries long_second_payload
  by (simp add: isspace_def isspace_char_def answers_once_def long_after_first_def made_call_def
      sleep_def API_MAX_RETRIES_def API_RATE_LIMIT_WAIT_SEC_def)


lemma long_first_batch_tags: "batch_tags_at [0..<101] 0 = [0..<100]"
  by (simp add: batch_tags_at_def BATCH_SIZE_def take_upt)

lemma long_translated:
  assumes "k < 100"
  shows "el_text (store long_after_first ! k) = Some ''Shalom''"
proof -
  have c: "length (split XML_SEPARATOR hundred_fragments) = length [0..<100]"
    by (simp add: split_hundred_fragments)
  have d: "distinct [0..<100]" by simp
  have k: "k < length [0..<100]" using assms by simp
  have r: "[0..<100] ! k < length long_table" using assms by (simp add: long_table_def)
  have p: "sample_fromstring (strip ''<string name=\"hi\">Shalom</string>'')
             = Some (Element ''string'' [(''name'', ''hi'')] (Some ''Shalom'') [] None)"
    by (simp add: sample_fromstring_def strip_def isspace_char_def)
  have "store long_after_first ! k
          = apply_fragment sample_fromstring (split XML_SEPARATOR hundred_fragments ! k)
              (long_table ! k)"
    using update_tags_positional(2)[OF c d k r, of sample_fromstring] assms
    by (simp add: long_after_first_def long_first_batch_tags)
  then show ?thesis using assms p by (simp add: el_text_apply_fragment split_hundred_fragments)
qed

text \<open>
  The table of 101 strings: the first batch of one hundred is translated, the call for
  the second batch times out three times, and the run ends with the one hundred
  translations in place and the last string as it was.
\<close>

theorem failed_batch_aborts_the_run_witness:
  "[0..<101] = get_translatable_strings long_table
   \<and> py_range 0 (length [0..<101]) BATCH_SIZE = [0] @ 100 # []
   \<and> run_batches sample_fromstring answers_once [0..<101]
        (all_xml_snippets_of ET_tostring long_table [0..<101]) [0] long_start
       = (None, long_after_first)
   \<and> translate_text_with_ai answers_once
        (combined_text_at (all_xml_snippets_of ET_tostring long_table [0..<101]) 100)
        (net long_after_first)
       = (''ERROR_TIMEOUT: timed out'', \<lparr>calls = 4, slept_sec = 120\<rparr>)
   \<and> terminal_failure ''ERROR_TIMEOUT: timed out''
   \<and> (\<exists>failure. run_batches sample_fromstring answers_once [0..<101]
          (all_xml_snippets_of ET_tostring long_table [0..<101])
          (py_range 0 (length [0..<101]) BATCH_SIZE) long_start
        = (Some failure, long_after_first\<lparr>net := \<lparr>calls = 4, slept_sec = 120\<rparr>\<rparr>))
   \<and> el_text (store (long_after_first\<lparr>net := \<lparr>calls = 4, slept_sec = 120\<rparr>\<rparr>) ! 0) = Some ''Shalom''
   \<and> el_text (store (long_after_first\<lparr>net := \<lparr>calls = 4, slept_sec = 120\<rparr>\<rparr>) ! 99) = Some ''Shalom''
   \<and> store (long_after_first\<lparr>net := \<lparr>calls = 4, slept_sec = 120\<rparr>\<rparr>) ! 100 = hi_tag"
proof -
  let ?snips = "all_xml_snippets_of ET_tostring long_table [0..<101]"
  have h1: "[0..<101] = get_translatable_strings long_table" by (simp add: long_translatable)
  have h5: "terminal_failure ''ERROR_TIMEOUT: timed out''" by (simp add: terminal_failure_def)
  have h5': "terminal_failure ''ERROR_TIMEOUT: timed out''
             \<or> length (split XML_SEPARATOR ''ERROR_TIMEOUT: timed out'')
                 \<noteq> length (batch_tags_at [0..<101] 100)"
    using h5 by blast
  note inst = failed_batch_aborts_the_run[OF h1 long_range long_first_batch long_second_call h5']
  have r1: "\<exists>failure. run_batches sample_fromstring answers_once [0..<101] ?snips
          (py_range 0 (length [0..<101]) BATCH_SIZE) long_start
        = (Some failure, long_after_first\<lparr>net := \<lparr>calls = 4, slept_sec = 120\<rparr>\<rparr>)"
    using inst by blast
  have "\<forall>r \<in> set (drop 100 [0..<101]). store long_after_first ! r = store long_start ! r"
    using inst by blast
  then have "store long_after_first ! 100 = store long_start ! 100" by simp
  then have r2: "store (long_after_first\<lparr>net := \<lparr>calls = 4, slept_sec = 120\<rparr>\<rparr>) ! 100 = hi_tag"
    by (simp add: long_start_def long_table_def)
  have r3: "el_text (store (long_after_first\<lparr>net := \<lparr>calls = 4, slept_sec = 120\<rparr>\<rparr>) ! 0)
              = Some ''Shalom''"
    using long_translated[of 0] by simp
  have r4: "el_text (store (long_after_first\<lparr>net := \<lparr>calls = 4, slept_sec = 120\<rparr>\<rparr>) ! 99)
              = Some ''Shalom''"
    using long_translated[of 99] by simp
  show ?thesis using h1 long_range long_first_batch long_second_call h5 r1 r2 r3 r4 by blast
qed

section \<open>A run of two batches with the second answered out of order\<close>

lemma snippets_of_all:
  "all_xml_snippets_of tostring children [0..<length children]
     = map (\<lambda>t. strip (tostring t)) children"
proof -
  have "map (\<lambda>tag. strip (tostring (children ! tag))) [0..<length children]
          = map (\<lambda>t. strip (tostring t)) (map ((!) children) [0..<length children])"
    by simp
  then show ?thesis by (simp only: all_xml_snippets_of_def map_nth)
qed

lemma length_mixed_table: "length mixed_table = 102"
  by (simp add: mixed_table_def)

lemma mixed_table_nth:
  "i < 100 \<Longrightarrow> mixed_table ! i = hi_tag"
  "mixed_table ! 100 = hello_tag"
  "mixed_table ! 101 = bye_tag"
  by (simp_all add: mixed_table_def nth_append)

lemma mixed_translatable: "get_translatable_strings mixed_table = [0..<102]"
proof -
  have "el_tag (mixed_table ! i) = ''string'' \<and> translatable (mixed_table ! i)" if "i < 102" for i
  proof -
    have "i < 100 \<or> i = 100 \<or> i = 101" using that by arith
    then show ?thesis
      by (auto simp: mixed_table_nth hi_tag_def hello_tag_def bye_tag_def translatable_def)
  qed
  then have "\<forall>i \<in> set [0..<102]. el_tag (mixed_table ! i) = ''string'' \<and> translatable (mixed_table ! i)"
    by simp
  then have "filter (\<lambda>i. el_tag (mixed_table ! i) = ''string'' \<and> translatable (mixed_table ! i)) [0..<102]
               = [0..<102]"
    by (simp only: filter_True)
  then show ?thesis by (simp add: get_translatable_strings_def length_mixed_table)
qed

lemma mixed_range: "py_range 0 (length [0..<102]) BATCH_SIZE = [0] @ 100 # []"
  by (simp add: BATCH_SIZE_def py_range.simps[of 0 102 100] py_range.simps[of 100 102 100]
      py_range.simps[of 200 102 100])

lemma mixed_snippets:
  "all_xml_snippets_of ET_tostring mixed_table [0..<102]
     = replicate 100 ''<string name=\"hi\">Hi</string>''
         @ [''<string name=\"hello\">Hello</string>'', ''<string name=\"bye\">Goodbye</string>'']"
proof -
  have "strip (ET_tostring hello_tag) = ''<string name=\"hello\">Hello</string>''"
    by (simp add: hello_tag_def write_attrib_def strip_def isspace_char_def)
  moreover have "strip (ET_tostring bye_tag) = ''<string name=\"bye\">Goodbye</string>''"
    by (simp add: bye_tag_def write_attrib_def strip_def isspace_char_def)
  moreover have "all_xml_snippets_of ET_tostring mixed_table [0..<102]
                   = map (\<lambda>t. strip (ET_tostring t)) mixed_table"
    using snippets_of_all[of ET_tostring mixed_table] by (simp only: length_mixed_table)
  ultimately show ?thesis by (simp add: mixed_table_def hi_snippet)
qed

lemma mixed_first_payload:
  "combined_text_at (all_xml_snippets_of ET_tostring mixed_table [0..<102]) 0
     = join XML_SEPARATOR (replicate 100 ''<string name=\"hi\">Hi</string>'')"
  by (simp add: mixed_snippets combined_text_at_def BATCH_SIZE_def)

lemma mixed_second_payload:
  "combined_text_at (all_xml_snippets_of ET_tostring mixed_table [0..<102]) 100
     = ''<string name=\"hello\">Hello</string>'' @ XML_SEPARATOR
         @ ''<string name=\"bye\">Goodbye</string>''"
  by (simp add: mixed_snippets combined_text_at_def BATCH_SIZE_def)

lemma strip_swapped_response: "strip swapped_response = swapped_response"
  by (simp add: swapped_response_def XML_SEPARATOR_def strip_def isspace_char_def)

lemma swapped_response_unmarked: "\<not> py_in ''ERROR_'' swapped_response"
  by (simp add: swapped_response_def XML_SEPARATOR_def)

lemma mixed_first_call:
  "translate_text_with_ai answers_in_turn
     (combined_text_at (all_xml_snippets_of ET_tostring mixed_table [0..<102]) 0) (net mixed_start)
     = (hundred_fragments, \<lparr>calls = 1, slept_sec = 0\<rparr>)"
proof -
  let ?p = "combined_text_at (all_xml_snippets_of ET_tostring mixed_table [0..<102]) 0"
  have ne: "?p \<noteq> []" by (simp add: mixed_first_payload join_replicate_ends)
  have "hd ?p = CHR ''<''" by (simp add: mixed_first_payload join_replicate_ends)
  then have ns: "\<not> isspace ?p" using isspace_hd[of ?p] by (auto simp: isspace_char_def)
  have "answers_in_turn (calls (net mixed_start)) ?p = Response hundred_fragments"
    by (simp add: answers_in_turn_def mixed_start_def fresh_client_def)
  then show ?thesis
    using translate_response[OF ne ns]
    by (simp add: strip_hundred_fragments mixed_start_def fresh_client_def made_call_def)
qed

lemma mixed_first_batch:
  "run_batches sample_fromstring answers_in_turn [0..<102]
     (all_xml_snippets_of ET_tostring mixed_table [0..<102]) [0]
     \<lparr>store = mixed_table, net = fresh_client, translated_count = 0, progress_value = 0\<rparr>
     = (None, mixed_after_first)"
proof -
  have c: "length (split XML_SEPARATOR hundred_fragments) = length (batch_tags_at [0..<102] 0)"
    by (simp add: split_hundred_fragments batch_tags_at_def BATCH_SIZE_def)
  show ?thesis
    unfolding mixed_start_def[symmetric]
      run_batches_applied[OF mixed_first_call hundred_fragments_unmarked c]
    by (simp add: mixed_after_first_def mixed_start_def batch_tags_at_def BATCH_SIZE_def)
qed

lemma mixed_second_call:
  "translate_text_with_ai answers_in_turn
     (combined_text_at (all_xml_snippets_of ET_tostring mixed_table [0..<102]) 100)
     (net mixed_after_first)
     = (swapped_response, \<lparr>calls = 2, slept_sec = 0\<rparr>)"
proof -
  let ?p = "combined_text_at (all_xml_snippets_of ET_tostring mixed_table [0..<102]) 100"
  have ne: "?p \<noteq> []" by (simp add: mixed_second_payload)
  have ns: "\<not> isspace ?p" by (simp add: mixed_second_payload isspace_def isspace_char_def)
  have "answers_in_turn (calls (net mixed_after_first)) ?p = Response swapped_response"
    by (simp add: answers_in_turn_def mixed_after_first_def)
  then show ?thesis
    using translate_response[OF ne ns]
    by (simp add: strip_swapped_response mixed_after_first_def made_call_def)
qed

lemma mixed_second_batch_tags: "batch_tags_at [0..<102] 100 = [100, 101]"
proof -
  have "drop 100 [0..<102] = [100..<102]" by (simp only: drop_upt) simp
  also have "\<dots> = [100, 101]" by (simp add: upt_rec)
  finally show ?thesis by (simp add: batch_tags_at_def BATCH_SIZE_def)
qed

text \<open>
  The table of 102 strings: the first batch of one hundred is translated, the second
  batch is sent as the serializations of \<open>hello\<close> and \<open>bye\<close> in this order, and the
  response brings the translation named \<open>bye\<close> first. The run ends normally, with the
  first fragment in the record \<open>hello\<close> and the second in the record \<open>bye\<close>.
\<close>

theorem batches_keep_order_and_fragments_go_by_position_witness:
  "[0..<102] = get_translatable_strings mixed_table
   \<and> py_range 0 (length [0..<102]) BATCH_SIZE = [0] @ 100 # []
   \<and> run_batches sample_fromstring answers_in_turn [0..<102]
        (all_xml_snippets_of ET_tostring mixed_table [0..<102]) [0]
        \<lparr>store = mixed_table, net = fresh_client, translated_count = 0, progress_value = 0\<rparr>
       = (None, mixed_after_first)
   \<and> batch_tags_at [0..<102] 100 = [100, 101]
   \<and> translate_text_with_ai answers_in_turn
        (combined_text_at (all_xml_snippets_of ET_tostring mixed_table [0..<102]) 100)
        (net mixed_after_first)
       = (swapped_response, \<lparr>calls = 2, slept_sec = 0\<rparr>)
   \<and> \<not> py_in ''ERROR_'' swapped_response
   \<and> split XML_SEPARATOR swapped_response
       = [''<string name=\"bye\">Lehitraot</string>'', ''<string name=\"hello\">Shalom</string>'']
   \<and> combined_text_at (all_xml_snippets_of ET_tostring mixed_table [0..<102]) 100
       = join XML_SEPARATOR [strip (ET_tostring hello_tag), strip (ET_tostring bye_tag)]
   \<and> store mixed_after_first ! 100 = hello_tag
   \<and> store mixed_after_first ! 101 = bye_tag
   \<and> fst (translation_run ET_tostring sample_fromstring answers_in_turn mixed_table fresh_client 0)
       = None
   \<and> store (snd (translation_run ET_tostring sample_fromstring answers_in_turn mixed_table
                    fresh_client 0)) ! 100
       = Element ''string'' [(''name'', ''hello'')] (Some ''Lehitraot'') [] None
   \<and> store (snd (translation_run ET_tostring sample_fromstring answers_in_turn mixed_table
                    fresh_client 0)) ! 101
       = Element ''string'' [(''name'', ''bye'')] (Some ''Shalom'') [] None"
proof -
  let ?snips = "all_xml_snippets_of ET_tostring mixed_table [0..<102]"
  let ?run = "translation_run ET_tostring sample_fromstring answers_in_turn mixed_table fresh_client 0"
  have h1: "[0..<102] = get_translatable_strings mixed_table" by (simp add: mixed_translatable)
  have b: "batch_tags_at [0..<102] 100 = [100, 101]" by (rule mixed_second_batch_tags)
  have h8: "length (split XML_SEPARATOR swapped_response) = length (batch_tags_at [0..<102] 100)"
    by (simp add: split_swapped_response b)
  have k0: "0 < length (batch_tags_at [0..<102] 100)" by (simp add: b)
  have k1: "1 < length (batch_tags_at [0..<102] 100)" by (simp add: b)
  note inst0 = batches_keep_order_and_fragments_go_by_position[OF h1 refl mixed_range mixed_first_batch refl mixed_second_call
      swapped_response_unmarked h8 k0, of "[0..<102]"]
  note inst1 = batches_keep_order_and_fragments_go_by_position[OF h1 refl mixed_range mixed_first_batch refl mixed_second_call
      swapped_response_unmarked h8 k1, of "[0..<102]"]
  have req: "combined_text_at ?snips 100
       = join XML_SEPARATOR (map (\<lambda>tag. strip (ET_tostring (mixed_table ! tag)))
                               (batch_tags_at [0..<102] 100))"
    using inst0 by blast
  have r1: "combined_text_at ?snips 100
       = join XML_SEPARATOR [strip (ET_tostring hello_tag), strip (ET_tostring bye_tag)]"
    unfolding req b by (simp add: mixed_table_nth)
  have "store mixed_after_first ! (batch_tags_at [0..<102] 100 ! 0)
          = mixed_table ! (batch_tags_at [0..<102] 100 ! 0)"
    using inst0 by blast
  then have r2: "store mixed_after_first ! 100 = hello_tag" by (simp add: b mixed_table_nth)
  have "store mixed_after_first ! (batch_tags_at [0..<102] 100 ! 1)
          = mixed_table ! (batch_tags_at [0..<102] 100 ! 1)"
    using inst1 by blast
  then have r3: "store mixed_after_first ! 101 = bye_tag" by (simp add: b mixed_table_nth)
  have "?run = run_batches sample_fromstring answers_in_turn [0..<102] ?snips []
                 (mixed_after_first
                    \<lparr>store := snd (update_tags_from_response sample_fromstring
                                    (batch_tags_at [0..<102] 100) swapped_response
                                    (store mixed_after_first)),
                     net := \<lparr>calls = 2, slept_sec = 0\<rparr>,
                     translated_count := translated_count mixed_after_first
                                           + length (batch_tags_at [0..<102] 100),
                     progress_value := translated_count mixed_after_first
                                         + length (batch_tags_at [0..<102] 100)\<rparr>)"
    using inst0 by blast
  then have r4: "fst ?run = None" by simp
  have "store (snd ?run) ! (batch_tags_at [0..<102] 100 ! 0)
          = apply_fragment sample_fromstring (split XML_SEPARATOR swapped_response ! 0)
              (mixed_table ! (batch_tags_at [0..<102] 100 ! 0))"
    using inst0 by blast
  then have r5: "store (snd ?run) ! 100
       = Element ''string'' [(''name'', ''hello'')] (Some ''Lehitraot'') [] None"
    by (simp add: b mixed_table_nth split_swapped_response apply_fragment_def
        sample_fromstring_def strip_def isspace_char_def set_text_def hello_tag_def)
  have "store (snd ?run) ! (batch_tags_at [0..<102] 100 ! 1)
          = apply_fragment sample_fromstring (split XML_SEPARATOR swapped_response ! 1)
              (mixed_table ! (batch_tags_at [0..<102] 100 ! 1))"
    using inst1 by blast
  then have r6: "store (snd ?run) ! 101
       = Element ''string'' [(''name'', ''bye'')] (Some ''Shalom'') [] None"
    by (simp add: b mixed_table_nth split_swapped_response apply_fragment_def
        sample_fromstring_def strip_def isspace_char_def set_text_def bye_tag_def)
  show ?thesis
    using h1 mixed_range mixed_first_batch b mixed_second_call swapped_response_unmarked
      split_swapped_response r1 r2 r3 r4 r5 r6
    by blast
qed

end
